theory Spec2Isabelle
  imports Complex_Main "HOL-Library.Sublist"
begin

section \<open>Data model of timelapse\_monitor.py\<close>

text \<open>
  The monitor talks to a camera, a cloud sink, a push service, a modem, a local
  file system and an SQLite table. Everything outside the Python process is an
  oracle of the record \<open>env\<close>; everything the process mutates is a field of the
  record \<open>state\<close>. An exception is represented by its message \<open>str(e)\<close>: a call
  that may raise returns \<open>Inl message\<close>, a call that returns normally \<open>Inr value\<close>.
\<close>

type_synonym content = string

type_synonym 'a result = "string + 'a"

text \<open>
  A path is a directory of the monitor (\<open>self.temp_dir\<close>, \<open>self.backup_dir\<close>) and
  a file name in it. File names are the plain names the camera reports (no path
  separator), so \<open>Path.name\<close> of a path is its second component.
\<close>

datatype dir = TempDir | BackupDir

type_synonym path = "dir \<times> string"

definition path_str :: "path \<Rightarrow> string" where
  "path_str p =
     (case fst p of TempDir \<Rightarrow> ''/tmp/timelapse_monitor/'' | BackupDir \<Rightarrow> ''/opt/timelapse/backup/'')
     @ snd p"

text \<open>
  Stands for the message of the \<open>FileNotFoundError\<close> that \<open>open\<close>, \<open>stat\<close> and
  \<open>rename\<close> raise on a missing file (CPython adds quotes, and the target for
  \<open>rename\<close>); no property below depends on its wording.
\<close>

definition no_such_file :: "path \<Rightarrow> string" where
  "no_such_file p = ''[Errno 2] No such file or directory: '' @ path_str p"

text \<open>class \<open>NotificationPriority\<close>.\<close>

definition CRITICAL :: int where "CRITICAL = 5"
definition HIGH :: int where "HIGH = 4"
definition MEDIUM :: int where "MEDIUM = 3"
definition LOW :: int where "LOW = 2"
definition INFO :: int where "INFO = 1"

text \<open>A row of the table \<open>processed_files\<close>, with the columns the INSERT statement names.\<close>

datatype status = Pending | Success | Backup

record file_record =
  filename :: string
  checksum :: string
  fsize :: nat
  processed_at :: nat
  upload_status :: status
  retries :: int

text \<open>
  What the process does to the outside world, in order: a call of
  \<open>send_notification\<close> (its HTTP POST carries the message and the priority), a
  command written to the modem's serial line, an upload handed to the sink's
  client, a file fetched from the camera.
\<close>

datatype event =
    Notify string int
  | ModemWrite string
  | SinkUpload string content
  | DeviceGet string

datatype camera_error = GPhoto2Error string | OtherError string

record env =
  sha256 :: "content \<Rightarrow> string"
  now :: nat
  stamp :: "string \<Rightarrow> string"
  disk_write :: "content \<Rightarrow> content result"
  sink_upload :: "string \<Rightarrow> content \<Rightarrow> unit result"
  rename_refused :: "path \<Rightarrow> path \<Rightarrow> string option"
  http_post :: "string \<Rightarrow> int \<Rightarrow> unit result"
  modem :: "string \<Rightarrow> string result"
  ADMIN_PHONE :: "string option"
  MAX_RETRIES :: "int option"
  camera_init :: "nat \<Rightarrow> bool"
  folder_list_files :: "nat \<Rightarrow> camera_error + string list"
  file_get :: "string \<Rightarrow> content result"
  list_of_set :: "string set \<Rightarrow> string list"
  disk_usage_percent :: real
  thermal_zone0 :: "real option"
  float_str :: "real \<Rightarrow> string"
  DISK_CRITICAL_THRESHOLD :: "int option"
  DISK_WARNING_THRESHOLD :: "int option"
  TEMP_CRITICAL_THRESHOLD :: "int option"
  TEMP_WARNING_THRESHOLD :: "int option"

text \<open>
  \<^item> \<open>sha256\<close>: hashlib's digest of a file's bytes, as a hex string.
  \<^item> \<open>now\<close>, \<open>stamp\<close>: \<open>datetime.now()\<close> as stored in the table, and its
    \<open>strftime('%Y%m%d_%H%M%S')\<close> at the moment the named file is downloaded.
  \<^item> \<open>disk_write\<close>: what the scratch copy holds after \<open>dst.write(src.read())\<close>,
    or the \<open>OSError\<close> the write raises.
  \<^item> \<open>sink_upload\<close>: the OneDrive client's \<open>upload\<close> of a named object.
  \<^item> \<open>rename_refused\<close>: an \<open>OSError\<close> of \<open>Path.rename\<close> other than a missing
    source (another device, a full disk, a name too long).
  \<^item> \<open>http_post\<close>: \<open>requests.post\<close> followed by \<open>raise_for_status\<close>.
  \<^item> \<open>modem\<close>: one exchange on the serial line: the decoded \<open>read_all\<close> after a
    command was written, or the exception of the write, the read or the decoding.
  \<^item> \<open>ADMIN_PHONE\<close>, \<open>MAX_RETRIES\<close>: \<open>os.getenv\<close> of these variables; a
    numeric variable that is set holds a number (otherwise \<open>int\<close> raises).
  \<^item> \<open>camera_init\<close>: whether \<open>gp.Camera().init()\<close> succeeds at an attempt.
  \<^item> \<open>folder_list_files\<close>: the camera's listing at the n-th call of a cycle.
  \<^item> \<open>file_get\<close>: \<open>camera.file_get\<close> and \<open>save\<close> of a file.
  \<^item> \<open>list_of_set\<close>: the order in which CPython enumerates a set.
  \<^item> \<open>disk_usage_percent\<close>: \<open>psutil.disk_usage('/').percent\<close>, the percentage of
    the root file system in use. A float is a real number, and Python compares a
    float with an int exactly.
  \<^item> \<open>thermal_zone0\<close>: the number read from the thermal sensor file, in
    millidegrees; \<open>None\<close> when reading or parsing raises.
  \<^item> \<open>float_str\<close>: how an f-string prints a float.
  \<^item> the four thresholds: \<open>os.getenv\<close> of the variables of these names.
\<close>

record state =
  camera :: bool
  processed_files :: "string set"
  store :: "file_record list"
  fs :: "path \<Rightarrow> content option"
  trace :: "event list"

definition log_event :: "event \<Rightarrow> state \<Rightarrow> state" where
  "log_event ev s = s\<lparr>trace := trace s @ [ev]\<rparr>"

text \<open>The events a step added to the trace.\<close>

definition new_events :: "state \<Rightarrow> state \<Rightarrow> event list" where
  "new_events s s' = drop (length (trace s)) (trace s')"

section \<open>The table \<open>processed_files\<close>\<close>

text \<open>
  The table is the list of its rows in rowid order; the statements of the source
  are the functions below. The connection is taken to be available (an
  \<open>sqlite3\<close> error would reach the handler of the calling method).
\<close>

definition select_success :: "file_record list \<Rightarrow> string \<Rightarrow> bool" where
  "select_success rows f = list_ex (\<lambda>r. filename r = f \<and> upload_status r = Success) rows"

text \<open>
  Modelled from the spec: the CREATE TABLE statement of \<open>processed_files\<close> is not
  in the source. The column \<open>filename\<close> is taken as the table's key (section 3: at
  most one FileRecord per filename), so INSERT OR REPLACE deletes the rows of
  that file name and appends the new row.
\<close>

definition insert_or_replace :: "file_record \<Rightarrow> file_record list \<Rightarrow> file_record list" where
  "insert_or_replace r rows = filter (\<lambda>x. filename x \<noteq> filename r) rows @ [r]"

definition update_status :: "string \<Rightarrow> status \<Rightarrow> file_record list \<Rightarrow> file_record list" where
  "update_status f st rows = map (\<lambda>r. if filename r = f then r\<lparr>upload_status := st\<rparr> else r) rows"

definition increment_retries :: "string \<Rightarrow> file_record list \<Rightarrow> file_record list" where
  "increment_retries f rows = map (\<lambda>r. if filename r = f then r\<lparr>retries := retries r + 1\<rparr> else r) rows"

definition select_backup :: "file_record list \<Rightarrow> (string \<times> int) list" where
  "select_backup rows = map (\<lambda>r. (filename r, retries r)) (filter (\<lambda>r. upload_status r = Backup) rows)"

section \<open>Notification channel\<close>

definition getenv_str :: "string option \<Rightarrow> string" where
  "getenv_str v = (case v of None \<Rightarrow> ''None'' | Some x \<Rightarrow> x)"

definition getenv_int :: "int option \<Rightarrow> int \<Rightarrow> int" where
  "getenv_int v dflt = (case v of None \<Rightarrow> dflt | Some x \<Rightarrow> x)"

definition sms_commands :: "env \<Rightarrow> string \<Rightarrow> string list" where
  "sms_commands e message =
     [''AT+CMGF=1'' @ [CHR 0x0D],
      ''AT+CMGS='' @ [CHR 0x22] @ getenv_str (ADMIN_PHONE e) @ [CHR 0x22] @ [CHR 0x0D],
      message @ [CHR 0x1A]]"

text \<open>
  The loop over the three commands inside the inner \<open>try\<close>: write, read, look
  for \<open>ERROR\<close>. \<open>Inl\<close> is the exception that leaves the loop: the one of the
  serial exchange, or the \<open>Exception\<close> the source raises on an \<open>ERROR\<close> response.
\<close>

fun sms_loop :: "env \<Rightarrow> string list \<Rightarrow> state \<Rightarrow> unit result \<times> state" where
  "sms_loop e [] s = (Inr (), s)"
| "sms_loop e (cmd # cmds) s =
     (let s1 = log_event (ModemWrite cmd) s in
      case modem e cmd of
        Inl err \<Rightarrow> (Inl err, s1)
      | Inr response \<Rightarrow>
          if sublist ''ERROR'' response
          then (Inl (''Modem command failed: '' @ response), s1)
          else sms_loop e cmds s1)"

text \<open>
  The result of \<open>send_notification\<close> is \<open>Inr b\<close> when the call returns b, and
  \<open>Inl\<close> when an exception leaves the call. The two handlers
  \<open>except Exception\<close> are the two case distinctions on \<open>Inl\<close>.
\<close>

definition send_notification :: "env \<Rightarrow> string \<Rightarrow> int \<Rightarrow> state \<Rightarrow> bool result \<times> state" where
  "send_notification e message priority s =
     (let s1 = log_event (Notify message priority) s in
      case http_post e message priority of
        Inr _ \<Rightarrow> (Inr True, s1)
      | Inl err \<Rightarrow>
          (let (r, s2) = sms_loop e (sms_commands e message) s1 in
           case r of
             Inr _ \<Rightarrow> (Inr True, s2)
           | Inl sms_error \<Rightarrow> (Inr False, s2)))"

section \<open>Checksum and verification\<close>

definition calculate_checksum :: "env \<Rightarrow> (path \<Rightarrow> content option) \<Rightarrow> path \<Rightarrow> string result" where
  "calculate_checksum e files file_path =
     (case files file_path of None \<Rightarrow> Inl (no_such_file file_path) | Some c \<Rightarrow> Inr (sha256 e c))"

text \<open>
  \<open>original_size\<close> is \<open>None\<close> when the caller leaves it out. The test
  \<open>if original_size and ...\<close> is Python truthiness: it holds for a number other
  than 0.
\<close>

definition verify_file :: "(path \<Rightarrow> content option) \<Rightarrow> path \<Rightarrow> nat option \<Rightarrow> bool" where
  "verify_file files file_path original_size =
     (case files file_path of
        None \<Rightarrow> False
      | Some c \<Rightarrow>
          (let current_size = length c in
           if (case original_size of None \<Rightarrow> False | Some n \<Rightarrow> n \<noteq> 0 \<and> current_size \<noteq> n)
           then False else True))"

section \<open>Delivery engine\<close>

text \<open>\<open>Path.rename\<close>: the target is replaced; a missing source raises.\<close>

definition rename_path ::
  "env \<Rightarrow> path \<Rightarrow> path \<Rightarrow> (path \<Rightarrow> content option) \<Rightarrow> (path \<Rightarrow> content option) result" where
  "rename_path e src dst files =
     (case files src of
        None \<Rightarrow> Inl (no_such_file src)
      | Some c \<Rightarrow>
          (case rename_refused e src dst of
             Some err \<Rightarrow> Inl err
           | None \<Rightarrow> Inr ((files(src := None))(dst \<mapsto> c))))"

definition upload_temp_path :: "path \<Rightarrow> path" where
  "upload_temp_path filepath = (TempDir, ''upload_'' @ snd filepath)"

text \<open>The \<open>try\<close> block of \<open>upload_to_onedrive\<close>: \<open>Inl\<close> is the exception it raises.\<close>

definition try_upload :: "env \<Rightarrow> path \<Rightarrow> state \<Rightarrow> unit result \<times> state" where
  "try_upload e filepath s =
     (let temp_path = upload_temp_path filepath in
      case fs s filepath of
        None \<Rightarrow> (Inl (no_such_file filepath), s)
      | Some c \<Rightarrow>
          (case disk_write e c of
             Inl err \<Rightarrow> (Inl err, s)
           | Inr w \<Rightarrow>
               (let s1 = s\<lparr>fs := (fs s)(temp_path \<mapsto> w)\<rparr> in
                case fs s1 filepath of
                  None \<Rightarrow> (Inl (no_such_file filepath), s1)
                | Some c1 \<Rightarrow>
                    if \<not> verify_file (fs s1) temp_path (Some (length c1))
                    then (Inl ''File verification failed after copy'', s1)
                    else
                      (let s2 = log_event (SinkUpload (snd filepath) w) s1 in
                       case sink_upload e (snd filepath) w of
                         Inl err \<Rightarrow> (Inl err, s2)
                       | Inr _ \<Rightarrow> (Inr (), s2\<lparr>fs := (fs s2)(filepath := None)\<rparr>)))))"

definition upload_to_onedrive :: "env \<Rightarrow> path \<Rightarrow> state \<Rightarrow> bool \<times> state" where
  "upload_to_onedrive e filepath s =
     (let (r, s1) = try_upload e filepath s;
          (ok, s2) =
            (case r of
               Inr _ \<Rightarrow> (True, s1)
             | Inl err \<Rightarrow>
                 (let s' = snd (send_notification e (''OneDrive upload failed: '' @ err) MEDIUM s1);
                      backup_path = (BackupDir, snd filepath)
                  in case rename_path e filepath backup_path (fs s') of
                       Inl backup_error \<Rightarrow> (False, s')
                     | Inr files \<Rightarrow> (False, s'\<lparr>fs := files\<rparr>)))
      in (ok, s2\<lparr>fs := (fs s2)(upload_temp_path filepath := None)\<rparr>))"

text \<open>The handler \<open>except Exception as e\<close> of \<open>handle_file_processing\<close>.\<close>

definition processing_failed :: "env \<Rightarrow> string \<Rightarrow> string \<Rightarrow> state \<Rightarrow> bool \<times> state" where
  "processing_failed e f err s =
     (False, snd (send_notification e (''File processing failed for '' @ f @ '': '' @ err) HIGH s))"

definition handle_file_processing :: "env \<Rightarrow> string \<Rightarrow> path \<Rightarrow> state \<Rightarrow> bool \<times> state" where
  "handle_file_processing e f local_path s =
     (case calculate_checksum e (fs s) local_path of
        Inl err \<Rightarrow> processing_failed e f err s
      | Inr digest \<Rightarrow>
          (case fs s local_path of
             None \<Rightarrow> processing_failed e f (no_such_file local_path) s
           | Some c \<Rightarrow>
               (let file_size = length c in
                if select_success (store s) f then (True, s)
                else
                  (let s1 = s\<lparr>store := insert_or_replace
                              \<lparr>filename = f, checksum = digest, fsize = file_size,
                               processed_at = now e, upload_status = Pending, retries = 0\<rparr>
                              (store s)\<rparr>;
                       (ok, s2) = upload_to_onedrive e local_path s1
                   in if ok
                      then (True, s2\<lparr>store := update_status f Success (store s2)\<rparr>)
                      else
                        (let backup_path = (BackupDir, f) in
                         case rename_path e local_path backup_path (fs s2) of
                           Inl err \<Rightarrow> processing_failed e f err s2
                         | Inr files \<Rightarrow>
                             (let s3 = s2\<lparr>fs := files\<rparr>;
                                  s4 = s3\<lparr>store := update_status f Backup (store s3)\<rparr>;
                                  s5 = snd (send_notification e
                                         (''File '' @ f @ '' saved to backup storage after upload failure'')
                                         MEDIUM s4)
                              in (True, s5)))))))"

section \<open>Backlog resync\<close>

text \<open>The body of the loop \<open>for filename, retries in backup_files\<close>.\<close>

definition resync_file :: "env \<Rightarrow> string \<times> int \<Rightarrow> state \<Rightarrow> state" where
  "resync_file e row s =
     (let f = fst row; n = snd row in
      if n \<ge> getenv_int (MAX_RETRIES e) 5 then s
      else
        (let backup_path = (BackupDir, f) in
         if fs s backup_path = None then s
         else
           (let (ok, s1) = upload_to_onedrive e backup_path s in
            if ok
            then
              (let s2 = s1\<lparr>store := update_status f Success (store s1)\<rparr> in
               snd (send_notification e (''Successfully uploaded backup file '' @ f) LOW s2))
            else s1\<lparr>store := increment_retries f (store s1)\<rparr>)))"

fun resync_loop :: "env \<Rightarrow> (string \<times> int) list \<Rightarrow> state \<Rightarrow> state" where
  "resync_loop e [] s = s"
| "resync_loop e (row # rows) s = resync_loop e rows (resync_file e row s)"

definition process_backup_files :: "env \<Rightarrow> state \<Rightarrow> state" where
  "process_backup_files e s = resync_loop e (select_backup (store s)) s"

section \<open>Capture source adapter and discovery\<close>

definition connect_retries :: nat where
  "connect_retries = 3"

text \<open>
  \<open>connect_camera\<close>: the attempts 0, 1, 2 in turn, the first success returns
  True. A failed attempt clears the handle; after the last one a HIGH
  notification is sent.
\<close>

definition connect_camera :: "env \<Rightarrow> state \<Rightarrow> bool \<times> state" where
  "connect_camera e s =
     (if list_ex (camera_init e) [0 ..< connect_retries]
      then (True, s\<lparr>camera := True\<rparr>)
      else (False, snd (send_notification e ''Camera connection failed'' HIGH (s\<lparr>camera := False\<rparr>))))"

text \<open>\<open>if not self.camera and not self.connect_camera()\<close>: whether a handle is at hand.\<close>

definition ensure_camera :: "env \<Rightarrow> state \<Rightarrow> bool \<times> state" where
  "ensure_camera e s = (if camera s then (True, s) else connect_camera e s)"

definition get_camera_files :: "env \<Rightarrow> nat \<Rightarrow> state \<Rightarrow> string list \<times> state" where
  "get_camera_files e n s =
     (let (ready, s1) = ensure_camera e s in
      if \<not> ready then ([], s1)
      else
        (case folder_list_files e n of
           Inr names \<Rightarrow> (names, s1)
         | Inl (GPhoto2Error msg) \<Rightarrow>
             if sublist ''Camera is already in use'' msg then ([], s1)
             else ([], s1\<lparr>camera := False\<rparr>)
         | Inl (OtherError msg) \<Rightarrow> ([], s1)))"

definition download_path :: "env \<Rightarrow> string \<Rightarrow> path" where
  "download_path e f = (TempDir, ''timelapse_'' @ stamp e f @ ''_'' @ f)"

definition download_file :: "env \<Rightarrow> string \<Rightarrow> state \<Rightarrow> path option \<times> state" where
  "download_file e f s =
     (let local_path = download_path e f;
          (ready, s1) = ensure_camera e s
      in if \<not> ready then (None, s1)
         else
           (let s2 = log_event (DeviceGet f) s1 in
            case file_get e f of
              Inl err \<Rightarrow> (None, s2)
            | Inr c \<Rightarrow> (Some local_path, s2\<lparr>fs := (fs s2)(local_path \<mapsto> c)\<rparr>)))"

text \<open>The loop \<open>for file_info in new_file_infos\<close> of \<open>check_new_images\<close>.\<close>

fun images_loop :: "env \<Rightarrow> string list \<Rightarrow> state \<Rightarrow> state" where
  "images_loop e [] s = s"
| "images_loop e (file_info # rest) s =
     (let (local_path, s1) = download_file e file_info s in
      case local_path of
        None \<Rightarrow> images_loop e rest s1
      | Some p \<Rightarrow>
          (let (ok, s2) = handle_file_processing e file_info p s1 in
           images_loop e rest
             (if ok then s2\<lparr>processed_files := insert file_info (processed_files s2)\<rparr> else s2)))"

definition check_new_images :: "env \<Rightarrow> state \<Rightarrow> state" where
  "check_new_images e s =
     (let (listing, s1) = get_camera_files e 0 s;
          current_files = set listing;
          new_files = current_files - processed_files s1
      in if new_files = {} then s1
         else
           (let (all_files, s2) = get_camera_files e 1 s1;
                new_file_infos = filter (\<lambda>f. f \<in> new_files) all_files;
                s3 = images_loop e new_file_infos s2
            in if card (processed_files s3) > 1000
               then (let l = list_of_set e (processed_files s3)
                     in s3\<lparr>processed_files := set (drop (length l - 1000) l)\<rparr>)
               else s3))"

section \<open>Health supervisor\<close>

text \<open>
  One pass of the body of \<open>while True\<close> in \<open>system_monitor\<close>, without its sleep:
  the disk check, then the temperature check.
\<close>

definition check_disk :: "env \<Rightarrow> state \<Rightarrow> state" where
  "check_disk e s =
     (let percent = disk_usage_percent e in
      if percent \<ge> of_int (getenv_int (DISK_CRITICAL_THRESHOLD e) 10)
      then snd (send_notification e
             (''Critical: Disk space low ('' @ float_str e percent @ ''% used)'') CRITICAL s)
      else if percent \<ge> of_int (getenv_int (DISK_WARNING_THRESHOLD e) 25)
      then snd (send_notification e
             (''Warning: Disk space getting low ('' @ float_str e percent @ ''% used)'') LOW s)
      else s)"

definition check_temperature :: "env \<Rightarrow> state \<Rightarrow> state" where
  "check_temperature e s =
     (case thermal_zone0 e of
        None \<Rightarrow> s
      | Some m \<Rightarrow>
          (let temp = m / 1000 in
           if temp \<ge> of_int (getenv_int (TEMP_CRITICAL_THRESHOLD e) 80)
           then snd (send_notification e
                  (''Critical: System temperature '' @ float_str e temp @ [CHR 0xC2, CHR 0xB0] @ ''C'')
                  CRITICAL s)
           else if temp \<ge> of_int (getenv_int (TEMP_WARNING_THRESHOLD e) 70)
           then snd (send_notification e
                  (''Warning: System temperature '' @ float_str e temp @ [CHR 0xC2, CHR 0xB0] @ ''C'')
                  HIGH s)
           else s))"

definition system_monitor :: "env \<Rightarrow> state \<Rightarrow> state" where
  "system_monitor e s = check_temperature e (check_disk e s)"

section \<open>Concrete scenarios\<close>

text \<open>
  A healthy environment, and one whose network is down: the sink times out and
  the push service is unreachable, while the modem answers \<open>OK\<close>.
\<close>

definition env_ok :: env where
  "env_ok =
     \<lparr>sha256 = (\<lambda>c. ''sha256:'' @ c), now = 7, stamp = (\<lambda>f. ''20240101_120000''),
      disk_write = Inr, sink_upload = (\<lambda>n c. Inr ()), rename_refused = (\<lambda>a b. None),
      http_post = (\<lambda>m p. Inr ()), modem = (\<lambda>cmd. Inr ''OK''),
      ADMIN_PHONE = Some ''+46700000000'', MAX_RETRIES = None,
      camera_init = (\<lambda>n. True), folder_list_files = (\<lambda>n. Inr [''IMG_01.JPG'']),
      file_get = (\<lambda>f. Inr ''jpeg-bytes''), list_of_set = (\<lambda>S. []),
      disk_usage_percent = 50, thermal_zone0 = None, float_str = (\<lambda>x. ''50.0''),
      DISK_CRITICAL_THRESHOLD = None, DISK_WARNING_THRESHOLD = None,
      TEMP_CRITICAL_THRESHOLD = None, TEMP_WARNING_THRESHOLD = None\<rparr>"

definition env_offline :: env where
  "env_offline =
     env_ok\<lparr>sink_upload := (\<lambda>n c. Inl ''timed out''), http_post := (\<lambda>m p. Inl ''unreachable'')\<rparr>"

text \<open>The offline environment with a modem that accepts the mode command only.\<close>

definition env_modem_error :: env where
  "env_modem_error =
     env_offline\<lparr>modem := (\<lambda>cmd. if cmd = ''AT+CMGF=1'' @ [CHR 0x0D] then Inr ''OK''
                                 else Inr ''+CMS ERROR: 500'')\<rparr>"

text \<open>A process just started, with an empty table and an empty disk.\<close>

definition s_empty :: state where
  "s_empty = \<lparr>camera = False, processed_files = {}, store = [], fs = Map.empty, trace = []\<rparr>"

text \<open>The notifications among a list of events.\<close>

definition is_notify :: "event \<Rightarrow> bool" where
  "is_notify ev = (case ev of Notify m p \<Rightarrow> True | _ \<Rightarrow> False)"

text \<open>
  The events of one call of \<open>send_notification\<close>: they do not depend on the
  state it is called in (lemma \<open>send_notification_snd\<close>).
\<close>

definition notify_events :: "env \<Rightarrow> string \<Rightarrow> int \<Rightarrow> event list" where
  "notify_events e m p = trace (snd (send_notification e m p s_empty))"

text \<open>
  A fresh delivery in the offline environment: the camera listed \<open>IMG_02.JPG\<close>
  and \<open>download_file\<close> has saved it under its stamped name in the temp directory.
\<close>

definition s_fresh :: state where
  "s_fresh = s_empty\<lparr>camera := True,
      fs := [download_path env_offline ''IMG_02.JPG'' \<mapsto> ''jpeg-bytes'']\<rparr>"

text \<open>A healthy environment whose root file system is x percent in use.\<close>

definition env_disk :: "real \<Rightarrow> string \<Rightarrow> env" where
  "env_disk x str = env_ok\<lparr>disk_usage_percent := x, float_str := (\<lambda>r. str)\<rparr>"

text \<open>
  The row that the INSERT OR REPLACE of \<open>handle_file_processing\<close> writes for a
  payload c, with the status st in place of \<open>pending\<close>.
\<close>

definition new_record :: "env \<Rightarrow> string \<Rightarrow> content \<Rightarrow> status \<Rightarrow> file_record" where
  "new_record e f c st =
     \<lparr>filename = f, checksum = sha256 e c, fsize = length c, processed_at = now e,
      upload_status = st, retries = 0\<rparr>"

text \<open>
  A backlog: \<open>IMG_02.JPG\<close> has failed four times and its payload is in the backup
  directory; the payload of \<open>IMG_03.JPG\<close> is gone; \<open>IMG_09.JPG\<close> has reached
  the default ceiling of five retries; \<open>IMG_01.JPG\<close> is delivered.
\<close>

definition row_of :: "string \<Rightarrow> status \<Rightarrow> int \<Rightarrow> file_record" where
  "row_of f st n =
     \<lparr>filename = f, checksum = ''sha256:jpeg-bytes'', fsize = 10, processed_at = 3,
      upload_status = st, retries = n\<rparr>"

definition s_backlog :: state where
  "s_backlog = s_empty
     \<lparr>store := [row_of ''IMG_02.JPG'' Backup 4, row_of ''IMG_03.JPG'' Backup 0,
                row_of ''IMG_09.JPG'' Backup 5, row_of ''IMG_01.JPG'' Success 0],
      fs := [(BackupDir, ''IMG_02.JPG'') \<mapsto> ''jpeg-bytes'',
             (BackupDir, ''IMG_09.JPG'') \<mapsto> ''jpeg-bytes'']\<rparr>"

text \<open>The same backlog after the camera listed \<open>IMG_02.JPG\<close> again and it was downloaded.\<close>

definition s_rediscovered :: state where
  "s_rediscovered =
     s_backlog\<lparr>fs := (fs s_backlog)(download_path env_offline ''IMG_02.JPG'' \<mapsto> ''jpeg-bytes'')\<rparr>"

text \<open>The fresh delivery, with a second download of the same file beside the first.\<close>

definition s_twice :: state where
  "s_twice =
     s_fresh\<lparr>fs := (fs s_fresh)((TempDir, ''timelapse_20240101_120100_IMG_02.JPG'') \<mapsto> ''jpeg-bytes'')\<rparr>"

text \<open>
  A process just started (nothing in the processed-set, no camera handle) whose
  table holds the \<open>success\<close> record of \<open>IMG_01.JPG\<close>, the file the camera lists.
\<close>

definition s_restart :: state where
  "s_restart = s_empty\<lparr>store := [row_of ''IMG_01.JPG'' Success 0]\<rparr>"

section \<open>Properties of the notification channel\<close>

lemma sms_loop_snd:
  "snd (sms_loop e cmds s) =
     s\<lparr>trace := trace s @ map ModemWrite
         (take (Suc (length (takeWhile
            (\<lambda>cmd. case modem e cmd of Inl _ \<Rightarrow> False | Inr r \<Rightarrow> \<not> sublist ''ERROR'' r) cmds))) cmds)\<rparr>"
  by (induction cmds arbitrary: s) (auto simp: log_event_def split: sum.splits)

lemma sms_loop_fst:
  "(\<exists>u. fst (sms_loop e cmds s) = Inr u) =
     list_all (\<lambda>cmd. case modem e cmd of Inl _ \<Rightarrow> False | Inr r \<Rightarrow> \<not> sublist ''ERROR'' r) cmds"
  by (induction cmds arbitrary: s) (auto simp: Let_def split: sum.splits)

lemma send_notification_fst:
  "fst (send_notification e message priority s) =
     Inr (case http_post e message priority of
            Inr _ \<Rightarrow> True
          | Inl _ \<Rightarrow> list_all (\<lambda>cmd. case modem e cmd of Inl _ \<Rightarrow> False
                                   | Inr r \<Rightarrow> \<not> sublist ''ERROR'' r) (sms_commands e message))"
proof (cases "http_post e message priority")
  case (Inr u)
  then show ?thesis by (simp add: send_notification_def)
next
  case (Inl err)
  let ?s1 = "log_event (Notify message priority) s"
  show ?thesis
  proof (cases "fst (sms_loop e (sms_commands e message) ?s1)")
    case sms_error: (Inl x)
    then have "\<not> (\<exists>u. fst (sms_loop e (sms_commands e message) ?s1) = Inr u)" by simp
    then show ?thesis using Inl sms_error unfolding sms_loop_fst
      by (simp add: send_notification_def split_beta)
  next
    case sent: (Inr u)
    then have "\<exists>u. fst (sms_loop e (sms_commands e message) ?s1) = Inr u" by simp
    then show ?thesis using Inl sent unfolding sms_loop_fst
      by (simp add: send_notification_def split_beta)
  qed
qed

lemma send_notification_trace:
  "snd (send_notification e message priority s) =
     s\<lparr>trace := trace s @ Notify message priority #
        (case http_post e message priority of
           Inr _ \<Rightarrow> []
         | Inl _ \<Rightarrow> map ModemWrite
             (take (Suc (length (takeWhile
                (\<lambda>cmd. case modem e cmd of Inl _ \<Rightarrow> False | Inr r \<Rightarrow> \<not> sublist ''ERROR'' r)
                (sms_commands e message)))) (sms_commands e message)))\<rparr>"
proof (cases "http_post e message priority")
  case (Inr u)
  then show ?thesis by (simp add: send_notification_def log_event_def)
next
  case (Inl err)
  then show ?thesis
    by (cases "fst (sms_loop e (sms_commands e message) (log_event (Notify message priority) s))")
       (simp_all add: send_notification_def split_beta Let_def sms_loop_snd log_event_def)
qed

lemma mode_command_once:
  "filter (\<lambda>ev. ev = ModemWrite (''AT+CMGF=1'' @ [CHR 0x0D]))
     (map ModemWrite (take (Suc n)
        [''AT+CMGF=1'' @ [CHR 0x0D],
         ''AT+CMGS='' @ [CHR 0x22] @ phone @ [CHR 0x22, CHR 0x0D],
         message @ [CHR 0x1A]]))
   = [ModemWrite (''AT+CMGF=1'' @ [CHR 0x0D])]"
proof -
  have ne: "message @ [CHR 0x1A] \<noteq> ''AT+CMGF=1'' @ [CHR 0x0D]"
  proof
    assume "message @ [CHR 0x1A] = ''AT+CMGF=1'' @ [CHR 0x0D]"
    then have "last (message @ [CHR 0x1A]) = last (''AT+CMGF=1'' @ [CHR 0x0D])" by simp
    then show False by simp
  qed
  show ?thesis
  proof (cases n)
    case 0
    then show ?thesis by simp
  next
    case (Suc m)
    then show ?thesis using ne by (cases m) simp_all
  qed
qed

text \<open>
  Claim C7. When the HTTP transport fails, \<open>send_notification\<close> opens the SMS
  session exactly once. What it writes to the modem is a prefix of the three AT
  commands (mode-set, address with the configured recipient, payload ended by
  CTRL+Z), in order: the mode-set command always, and each further command only
  after every exchange before it completed with no \<open>ERROR\<close> in its response;
  the mode-set command is written once. The call returns (it never raises), and
  it returns True exactly when all three exchanges completed with no \<open>ERROR\<close>.
\<close>

theorem send_notification_fallback:
  assumes "http_post e message priority = Inl err"
  shows "let cmds = [''AT+CMGF=1'' @ [CHR 0x0D],
                     ''AT+CMGS='' @ [CHR 0x22] @ getenv_str (ADMIN_PHONE e) @ [CHR 0x22, CHR 0x0D],
                     message @ [CHR 0x1A]];
             completed = (\<lambda>cmd. case modem e cmd of Inl _ \<Rightarrow> False
                                | Inr r \<Rightarrow> \<not> sublist ''ERROR'' r)
         in new_events s (snd (send_notification e message priority s))
              = Notify message priority
                # map ModemWrite (take (Suc (length (takeWhile completed cmds))) cmds)
          \<and> length (filter (\<lambda>ev. ev = ModemWrite (''AT+CMGF=1'' @ [CHR 0x0D]))
                (new_events s (snd (send_notification e message priority s)))) = 1
          \<and> fst (send_notification e message priority s) = Inr (list_all completed cmds)"
proof -
  let ?cmds = "[''AT+CMGF=1'' @ [CHR 0x0D],
                ''AT+CMGS='' @ [CHR 0x22] @ getenv_str (ADMIN_PHONE e) @ [CHR 0x22, CHR 0x0D],
                message @ [CHR 0x1A]]"
  let ?completed = "\<lambda>cmd. case modem e cmd of Inl _ \<Rightarrow> False | Inr r \<Rightarrow> \<not> sublist ''ERROR'' r"
  let ?n = "length (takeWhile ?completed ?cmds)"
  have cmds: "sms_commands e message = ?cmds" by (simp add: sms_commands_def)
  have ev: "new_events s (snd (send_notification e message priority s))
              = Notify message priority # map ModemWrite (take (Suc ?n) ?cmds)"
    unfolding send_notification_trace cmds using assms by (simp add: new_events_def)
  have once: "length (filter (\<lambda>ev. ev = ModemWrite (''AT+CMGF=1'' @ [CHR 0x0D]))
                (new_events s (snd (send_notification e message priority s)))) = 1"
    unfolding ev using mode_command_once[of ?n "getenv_str (ADMIN_PHONE e)" message] by simp
  have res: "fst (send_notification e message priority s) = Inr (list_all ?completed ?cmds)"
    unfolding send_notification_fst cmds using assms by simp
  show ?thesis unfolding Let_def using ev once res by blast
qed

theorem send_notification_fallback_witness:
  "http_post env_offline ''disk'' LOW = Inl ''unreachable''
   \<and> new_events s_empty (snd (send_notification env_offline ''disk'' LOW s_empty))
       = [Notify ''disk'' LOW,
          ModemWrite (''AT+CMGF=1'' @ [CHR 0x0D]),
          ModemWrite (''AT+CMGS='' @ [CHR 0x22] @ ''+46700000000'' @ [CHR 0x22, CHR 0x0D]),
          ModemWrite (''disk'' @ [CHR 0x1A])]
   \<and> fst (send_notification env_offline ''disk'' LOW s_empty) = Inr True
   \<and> http_post env_modem_error ''disk'' LOW = Inl ''unreachable''
   \<and> new_events s_empty (snd (send_notification env_modem_error ''disk'' LOW s_empty))
       = [Notify ''disk'' LOW,
          ModemWrite (''AT+CMGF=1'' @ [CHR 0x0D]),
          ModemWrite (''AT+CMGS='' @ [CHR 0x22] @ ''+46700000000'' @ [CHR 0x22, CHR 0x0D])]
   \<and> fst (send_notification env_modem_error ''disk'' LOW s_empty) = Inr False"
proof -
  have h1: "http_post env_offline ''disk'' LOW = Inl ''unreachable''"
    by (simp add: env_offline_def env_ok_def)
  have h2: "http_post env_modem_error ''disk'' LOW = Inl ''unreachable''"
    by (simp add: env_modem_error_def env_offline_def env_ok_def)
  show ?thesis
    using h1 h2 send_notification_fallback [OF h1, of s_empty]
      send_notification_fallback [OF h2, of s_empty]
    by (simp add: env_modem_error_def env_offline_def env_ok_def getenv_str_def Let_def
        sublist_Cons_right)
qed

section \<open>Properties of the verification utility\<close>

lemma verify_file_iff:
  "verify_file files p n =
     (\<exists>c. files p = Some c \<and> (case n of None \<Rightarrow> True | Some k \<Rightarrow> k = 0 \<or> length c = k))"
  by (auto simp: verify_file_def split: option.splits)

text \<open>
  Claim C8. The claim includes the case \<open>expectedSize = 0\<close>; the source tests
  \<open>if original_size and ...\<close>, which is false for 0, so an expected size of 0 is
  never compared: a file of five bytes passes verification against it.
\<close>

theorem verify_file_zero_expected_size:
  "verify_file [(TempDir, ''upload_a.jpg'') \<mapsto> ''hello''] (TempDir, ''upload_a.jpg'') (Some 0) = True"
  by (simp add: verify_file_def)

section \<open>Properties of the health supervisor\<close>

text \<open>
  Claim C9. \<open>psutil\<close> reports the percentage in use, and the source compares it
  with the defaults 10 and 25 by \<open>>=\<close>: under the default thresholds a sample
  at 91 percent in use sends one CRITICAL notification, and so do the samples at
  76 percent (24 percent free) and at 50 percent, where the claim expects one
  LOW notification and none. The \<open>elif\<close> branch that sends LOW needs a
  percentage below 10 and at least 25.
\<close>

theorem system_monitor_default_thresholds:
  "new_events s_empty (system_monitor (env_disk 91 ''91.0'') s_empty)
     = [Notify ''Critical: Disk space low (91.0% used)'' CRITICAL]
   \<and> new_events s_empty (system_monitor (env_disk 76 ''76.0'') s_empty)
     = [Notify ''Critical: Disk space low (76.0% used)'' CRITICAL]
   \<and> new_events s_empty (system_monitor (env_disk 50 ''50.0'') s_empty)
     = [Notify ''Critical: Disk space low (50.0% used)'' CRITICAL]"
  by (simp add: system_monitor_def check_disk_def check_temperature_def env_disk_def env_ok_def
      getenv_int_def send_notification_def log_event_def new_events_def s_empty_def)

section \<open>Properties of the delivery engine\<close>

text \<open>
  Claim C1. A fresh delivery whose upload times out. \<open>upload_to_onedrive\<close> has
  already sent a MEDIUM notification (which carries the error, not the file
  name) and moved the payload to the backup directory under its stamped
  temp name; the \<open>rename\<close> in \<open>handle_file_processing\<close> then finds no source
  and raises. The call returns False, the record stays \<open>pending\<close>, nothing is at
  \<open>BackupDir/IMG_02.JPG\<close>, and the notifications are that MEDIUM one and a HIGH
  one from the handler.
\<close>

theorem handle_file_processing_upload_failure:
  "fst (handle_file_processing env_offline ''IMG_02.JPG''
          (download_path env_offline ''IMG_02.JPG'') s_fresh) = False
   \<and> map upload_status (store (snd (handle_file_processing env_offline ''IMG_02.JPG''
          (download_path env_offline ''IMG_02.JPG'') s_fresh))) = [Pending]
   \<and> fs (snd (handle_file_processing env_offline ''IMG_02.JPG''
          (download_path env_offline ''IMG_02.JPG'') s_fresh)) (BackupDir, ''IMG_02.JPG'') = None
   \<and> fs (snd (handle_file_processing env_offline ''IMG_02.JPG''
          (download_path env_offline ''IMG_02.JPG'') s_fresh))
        (BackupDir, ''timelapse_20240101_120000_IMG_02.JPG'') = Some ''jpeg-bytes''
   \<and> filter is_notify (new_events s_fresh (snd (handle_file_processing env_offline ''IMG_02.JPG''
          (download_path env_offline ''IMG_02.JPG'') s_fresh)))
      = [Notify ''OneDrive upload failed: timed out'' MEDIUM,
         Notify (''File processing failed for IMG_02.JPG: ''
                 @ no_such_file (download_path env_offline ''IMG_02.JPG'')) HIGH]"
  by (simp add: handle_file_processing_def s_fresh_def s_empty_def env_offline_def env_ok_def
      download_path_def calculate_checksum_def select_success_def insert_or_replace_def
      upload_to_onedrive_def try_upload_def upload_temp_path_def verify_file_def log_event_def
      send_notification_def sms_commands_def getenv_str_def rename_path_def processing_failed_def
      no_such_file_def path_str_def Let_def sublist_Cons_right update_status_def new_events_def
      is_notify_def)

section \<open>Frame and trace lemmas\<close>

subsection \<open>Notifications\<close>

lemma send_notification_snd:
  "snd (send_notification e m p s) = s\<lparr>trace := trace s @ notify_events e m p\<rparr>"
  by (simp add: notify_events_def send_notification_trace s_empty_def)

lemma notify_events_shape:
  "\<exists>ws. notify_events e m p = Notify m p # map ModemWrite ws"
  by (auto simp: notify_events_def send_notification_trace s_empty_def split: sum.splits)

lemma notify_events_notify [simp]: "filter is_notify (notify_events e m p) = [Notify m p]"
proof -
  obtain ws where "notify_events e m p = Notify m p # map ModemWrite ws"
    using notify_events_shape by blast
  then show ?thesis by (simp add: is_notify_def filter_empty_conv)
qed

lemma notify_events_no_upload [simp]: "SinkUpload n c \<notin> set (notify_events e m p)"
proof -
  obtain ws where "notify_events e m p = Notify m p # map ModemWrite ws"
    using notify_events_shape by blast
  then show ?thesis by auto
qed

lemma try_upload_store [simp]: "store (snd (try_upload e p s)) = store s"
  by (simp add: try_upload_def log_event_def Let_def split: option.splits sum.splits)

lemma upload_store [simp]: "store (snd (upload_to_onedrive e p s)) = store s"
  by (simp add: upload_to_onedrive_def send_notification_snd Let_def split_beta split: sum.splits)

subsection \<open>The upload step\<close>

lemma upload_temp_path_neq [simp]: "upload_temp_path p \<noteq> p" "p \<noteq> upload_temp_path p"
  "upload_temp_path p \<noteq> (BackupDir, g)" "(BackupDir, g) \<noteq> upload_temp_path p"
  by (cases p; auto simp: upload_temp_path_def)+

lemma new_events_append [simp]: "new_events s (s\<lparr>trace := trace s @ E\<rparr>) = E"
  by (simp add: new_events_def)

lemma try_upload_frame:
  "camera (snd (try_upload e p s)) = camera s"
  "processed_files (snd (try_upload e p s)) = processed_files s"
  "store (snd (try_upload e p s)) = store s"
  by (simp_all add: try_upload_def log_event_def Let_def split: option.splits sum.splits)

lemma try_upload_fs_other:
  "q \<noteq> p \<Longrightarrow> q \<noteq> upload_temp_path p \<Longrightarrow> fs (snd (try_upload e p s)) q = fs s q"
  by (simp add: try_upload_def log_event_def Let_def split: option.splits sum.splits)

lemma try_upload_fs_self:
  "fs (snd (try_upload e p s)) p = (if fst (try_upload e p s) = Inr () then None else fs s p)"
  by (simp add: try_upload_def log_event_def Let_def split: option.splits sum.splits)

lemma try_upload_trace:
  "trace (snd (try_upload e p s)) = trace s @ new_events s (snd (try_upload e p s))"
  by (simp add: try_upload_def log_event_def Let_def new_events_def split: option.splits sum.splits)

lemma try_upload_events:
  "set (new_events s (snd (try_upload e p s))) \<subseteq> {SinkUpload (snd p) c | c. True}"
  by (auto simp: try_upload_def log_event_def Let_def new_events_def split: option.splits sum.splits)

lemma try_upload_indep:
  "fs t p = fs s p \<Longrightarrow>
     fst (try_upload e p t) = fst (try_upload e p s)
     \<and> new_events t (snd (try_upload e p t)) = new_events s (snd (try_upload e p s))"
  by (auto simp: try_upload_def log_event_def Let_def new_events_def verify_file_def split: option.splits sum.splits)

lemma rename_path_other:
  "rename_path e src dst files = Inr files' \<Longrightarrow> q \<noteq> src \<Longrightarrow> q \<noteq> dst \<Longrightarrow> files' q = files q"
  by (auto simp: rename_path_def split: option.splits)

lemma rename_path_same:
  "rename_path e p p files = Inr files' \<Longrightarrow> files' = files"
  by (auto simp: rename_path_def split: option.splits)

text \<open>\<open>upload_to_onedrive\<close> in terms of its \<open>try\<close> block.\<close>

lemma upload_ok:
  "fst (try_upload e p s) = Inr u \<Longrightarrow>
   upload_to_onedrive e p s =
     (True, (snd (try_upload e p s))\<lparr>fs := (fs (snd (try_upload e p s)))(upload_temp_path p := None)\<rparr>)"
  by (simp add: upload_to_onedrive_def split_beta)

lemma upload_fail:
  "fst (try_upload e p s) = Inl err \<Longrightarrow>
   upload_to_onedrive e p s =
     (let s' = (snd (try_upload e p s))\<lparr>trace := trace (snd (try_upload e p s))
                  @ notify_events e (''OneDrive upload failed: '' @ err) MEDIUM\<rparr>;
          s2 = (case rename_path e p (BackupDir, snd p) (fs s') of
                  Inl backup_error \<Rightarrow> s' | Inr files \<Rightarrow> s'\<lparr>fs := files\<rparr>)
      in (False, s2\<lparr>fs := (fs s2)(upload_temp_path p := None)\<rparr>))"
  by (simp add: upload_to_onedrive_def split_beta send_notification_snd Let_def split: sum.splits)

lemma upload_fst: "fst (upload_to_onedrive e p s) = (\<exists>u. fst (try_upload e p s) = Inr u)"
  by (cases "fst (try_upload e p s)") (simp_all add: upload_ok upload_fail Let_def)

lemma upload_frame:
  "camera (snd (upload_to_onedrive e p s)) = camera s"
  "processed_files (snd (upload_to_onedrive e p s)) = processed_files s"
  "store (snd (upload_to_onedrive e p s)) = store s"
  by (cases "fst (try_upload e p s)";
      simp add: upload_ok upload_fail try_upload_frame Let_def split: sum.splits)+

lemma upload_fs_other:
  assumes "q \<noteq> p" "q \<noteq> upload_temp_path p" "q \<noteq> (BackupDir, snd p)"
  shows "fs (snd (upload_to_onedrive e p s)) q = fs s q"
proof (cases "fst (try_upload e p s)")
  case (Inr u)
  then show ?thesis using assms by (simp add: upload_ok try_upload_fs_other)
next
  case (Inl err)
  show ?thesis
  proof (cases "rename_path e p (BackupDir, snd p) (fs (snd (try_upload e p s)))")
    case (Inl b)
    then show ?thesis using assms \<open>fst (try_upload e p s) = Inl err\<close>
      by (simp add: upload_fail try_upload_fs_other Let_def)
  next
    case (Inr files)
    then have "files q = fs (snd (try_upload e p s)) q"
      using assms rename_path_other by metis
    then show ?thesis using assms Inr \<open>fst (try_upload e p s) = Inl err\<close>
      by (simp add: upload_fail try_upload_fs_other Let_def)
  qed
qed

lemma upload_fs_backup:
  "fs (snd (upload_to_onedrive e (BackupDir, f) s)) (BackupDir, f)
     = (if fst (upload_to_onedrive e (BackupDir, f) s) then None else fs s (BackupDir, f))"
proof (cases "fst (try_upload e (BackupDir, f) s)")
  case (Inr u)
  then show ?thesis using try_upload_fs_self[of e "(BackupDir, f)" s]
    by (simp add: upload_ok)
next
  case (Inl err)
  have self: "fs (snd (try_upload e (BackupDir, f) s)) (BackupDir, f) = fs s (BackupDir, f)"
    using Inl try_upload_fs_self[of e "(BackupDir, f)" s] by simp
  show ?thesis
  proof (cases "rename_path e (BackupDir, f) (BackupDir, f) (fs (snd (try_upload e (BackupDir, f) s)))")
    case (Inl b)
    then show ?thesis using \<open>fst (try_upload e (BackupDir, f) s) = Inl err\<close> self
      by (simp add: upload_fail Let_def)
  next
    case (Inr files)
    then have "files = fs (snd (try_upload e (BackupDir, f) s))"
      using rename_path_same by metis
    then show ?thesis using Inr \<open>fst (try_upload e (BackupDir, f) s) = Inl err\<close> self
      by (simp add: upload_fail Let_def)
  qed
qed

lemma upload_trace_eq:
  "trace (snd (upload_to_onedrive e p s)) =
     trace s @ new_events s (snd (try_upload e p s)) @
     (case fst (try_upload e p s) of Inr _ \<Rightarrow> []
      | Inl err \<Rightarrow> notify_events e (''OneDrive upload failed: '' @ err) MEDIUM)"
proof -
  have tr: "trace (snd (try_upload e p s)) = trace s @ new_events s (snd (try_upload e p s))"
    by (rule try_upload_trace)
  show ?thesis
    by (cases "fst (try_upload e p s)")
       (simp_all add: upload_ok upload_fail Let_def tr split: sum.splits)
qed

lemma upload_events_eq:
  "new_events s (snd (upload_to_onedrive e p s)) =
     new_events s (snd (try_upload e p s)) @
     (case fst (try_upload e p s) of Inr _ \<Rightarrow> []
      | Inl err \<Rightarrow> notify_events e (''OneDrive upload failed: '' @ err) MEDIUM)"
  by (subst new_events_def, subst upload_trace_eq, simp)

lemma upload_trace:
  "trace (snd (upload_to_onedrive e p s)) = trace s @ new_events s (snd (upload_to_onedrive e p s))"
  by (simp add: upload_events_eq upload_trace_eq)

lemma upload_indep:
  assumes "fs t p = fs s p"
  shows "fst (upload_to_onedrive e p t) = fst (upload_to_onedrive e p s)"
    and "new_events t (snd (upload_to_onedrive e p t)) = new_events s (snd (upload_to_onedrive e p s))"
  using try_upload_indep[OF assms, of e] by (simp_all add: upload_fst upload_events_eq)

lemma upload_events_sink:
  "SinkUpload n c \<in> set (new_events s (snd (upload_to_onedrive e p s))) \<Longrightarrow> n = snd p"
  using try_upload_events[of s e p]
  by (auto simp: upload_events_eq split: sum.splits)

lemma try_upload_no_notify: "filter is_notify (new_events s (snd (try_upload e p s))) = []"
  using try_upload_events[of s e p] by (auto simp: filter_empty_conv is_notify_def)

lemma upload_events_notify:
  "filter is_notify (new_events s (snd (upload_to_onedrive e p s))) =
     (case fst (try_upload e p s) of Inr _ \<Rightarrow> []
      | Inl err \<Rightarrow> [Notify (''OneDrive upload failed: '' @ err) MEDIUM])"
  by (simp add: upload_events_eq try_upload_no_notify split: sum.splits)

subsection \<open>One turn of the resync loop\<close>

lemma resync_skip:
  "n \<ge> getenv_int (MAX_RETRIES e) 5 \<or> fs s (BackupDir, f) = None \<Longrightarrow> resync_file e (f, n) s = s"
  by (auto simp: resync_file_def Let_def)

lemma resync_fail:
  assumes "n < getenv_int (MAX_RETRIES e) 5" "fs s (BackupDir, f) \<noteq> None"
    "\<not> fst (upload_to_onedrive e (BackupDir, f) s)"
  shows "resync_file e (f, n) s =
     (snd (upload_to_onedrive e (BackupDir, f) s))\<lparr>store := increment_retries f (store s)\<rparr>"
  using assms by (auto simp: resync_file_def Let_def split_beta upload_frame)

lemma resync_ok:
  assumes "n < getenv_int (MAX_RETRIES e) 5" "fs s (BackupDir, f) \<noteq> None"
    "fst (upload_to_onedrive e (BackupDir, f) s)"
  shows "resync_file e (f, n) s =
     (snd (upload_to_onedrive e (BackupDir, f) s))
       \<lparr>store := update_status f Success (store s),
        trace := trace (snd (upload_to_onedrive e (BackupDir, f) s))
                 @ notify_events e (''Successfully uploaded backup file '' @ f) LOW\<rparr>"
  using assms by (auto simp: resync_file_def Let_def split_beta upload_frame send_notification_snd)

lemma resync_cases:
  obtains (skip) "n \<ge> getenv_int (MAX_RETRIES e) 5 \<or> fs s (BackupDir, f) = None"
  | (fail) "n < getenv_int (MAX_RETRIES e) 5" "fs s (BackupDir, f) \<noteq> None"
      "\<not> fst (upload_to_onedrive e (BackupDir, f) s)"
  | (ok) "n < getenv_int (MAX_RETRIES e) 5" "fs s (BackupDir, f) \<noteq> None"
      "fst (upload_to_onedrive e (BackupDir, f) s)"
  by fastforce

lemma resync_store:
  "store (resync_file e (f, n) s) = store s
   \<or> store (resync_file e (f, n) s) = increment_retries f (store s)
   \<or> store (resync_file e (f, n) s) = update_status f Success (store s)"
  by (cases rule: resync_cases[where n=n and e=e and s=s and f=f]) (simp_all add: resync_skip resync_fail resync_ok)

lemma resync_store_other:
  "x \<in> set (store s) \<Longrightarrow> filename x \<noteq> f \<Longrightarrow> x \<in> set (store (resync_file e (f, n) s))"
  using resync_store[of e f n s]
  by (auto simp: increment_retries_def update_status_def image_iff intro!: bexI[of _ x])

lemma resync_names: "map filename (store (resync_file e (f, n) s)) = map filename (store s)"
  using resync_store[of e f n s]
  by (auto simp: increment_retries_def update_status_def)

lemma resync_fs_other:
  "g \<noteq> f \<Longrightarrow> fs (resync_file e (f, n) s) (BackupDir, g) = fs s (BackupDir, g)"
  by (cases rule: resync_cases[where n=n and e=e and s=s and f=f])
     (simp_all add: resync_skip resync_fail resync_ok upload_fs_other)

lemma resync_fs_self:
  "fs (resync_file e (f, n) s) (BackupDir, f) = None \<or>
   fs (resync_file e (f, n) s) (BackupDir, f) = fs s (BackupDir, f)"
  by (cases rule: resync_cases[where n=n and e=e and s=s and f=f])
     (auto simp add: resync_skip resync_fail resync_ok upload_fs_backup)

lemma new_events_eqI: "trace s' = trace s @ E \<Longrightarrow> new_events s s' = E"
  by (simp add: new_events_def)

lemma resync_trace_eq:
  "trace (resync_file e (f, n) s) = trace s @
     (if n \<ge> getenv_int (MAX_RETRIES e) 5 \<or> fs s (BackupDir, f) = None then []
      else new_events s (snd (upload_to_onedrive e (BackupDir, f) s)) @
        (if fst (upload_to_onedrive e (BackupDir, f) s)
         then notify_events e (''Successfully uploaded backup file '' @ f) LOW else []))"
proof -
  define E where "E = new_events s (snd (upload_to_onedrive e (BackupDir, f) s))"
  define N where "N = notify_events e (''Successfully uploaded backup file '' @ f) LOW"
  have tU: "trace (snd (upload_to_onedrive e (BackupDir, f) s)) = trace s @ E"
    unfolding E_def by (rule upload_trace)
  show ?thesis
  proof (cases rule: resync_cases[where n=n and e=e and s=s and f=f])
    case skip
    have "trace (resync_file e (f, n) s) = trace s @ []"
      unfolding resync_skip[OF skip] by simp
    then show ?thesis using skip by (simp only: if_True)
  next
    case fail
    have c: "\<not> (n \<ge> getenv_int (MAX_RETRIES e) 5 \<or> fs s (BackupDir, f) = None)"
      using fail by simp
    have "trace (resync_file e (f, n) s) = trace s @ E @ []"
      unfolding resync_fail[OF fail] by (simp add: tU)
    then show ?thesis using c fail(3) unfolding E_def by (simp only: if_False)
  next
    case ok
    have c: "\<not> (n \<ge> getenv_int (MAX_RETRIES e) 5 \<or> fs s (BackupDir, f) = None)"
      using ok by simp
    have "trace (resync_file e (f, n) s) = trace s @ E @ N"
      unfolding resync_ok[OF ok] N_def[symmetric] by (simp add: tU)
    then show ?thesis using c ok(3) unfolding E_def N_def by (simp only: if_False if_True)
  qed
qed

lemma resync_events_eq:
  "new_events s (resync_file e (f, n) s) =
     (if n \<ge> getenv_int (MAX_RETRIES e) 5 \<or> fs s (BackupDir, f) = None then []
      else new_events s (snd (upload_to_onedrive e (BackupDir, f) s)) @
        (if fst (upload_to_onedrive e (BackupDir, f) s)
         then notify_events e (''Successfully uploaded backup file '' @ f) LOW else []))"
  by (rule new_events_eqI) (rule resync_trace_eq)

lemma resync_trace:
  "trace (resync_file e (f, n) s) = trace s @ new_events s (resync_file e (f, n) s)"
  unfolding resync_events_eq by (rule resync_trace_eq)

lemma resync_indep:
  assumes "fs t (BackupDir, f) = fs s (BackupDir, f)"
  shows "new_events t (resync_file e (f, n) t) = new_events s (resync_file e (f, n) s)"
  unfolding resync_events_eq
  by (simp only: upload_indep[OF assms, of e] assms)

lemma resync_events_sink:
  assumes "SinkUpload g c \<in> set (new_events s (resync_file e (f, n) s))"
  shows "g = f"
proof -
  have "SinkUpload g c \<in> set (new_events s (snd (upload_to_onedrive e (BackupDir, f) s)))"
    using assms unfolding resync_events_eq
    by (cases "n \<ge> getenv_int (MAX_RETRIES e) 5 \<or> fs s (BackupDir, f) = None";
        cases "fst (upload_to_onedrive e (BackupDir, f) s)"; simp)
  then show ?thesis using upload_events_sink[of g c s e "(BackupDir, f)"] by simp
qed

subsection \<open>The resync loop\<close>

lemma resync_loop_append: "resync_loop e (xs @ ys) s = resync_loop e ys (resync_loop e xs s)"
  by (induction xs arbitrary: s) simp_all

lemma loop_names: "map filename (store (resync_loop e rows s)) = map filename (store s)"
proof (induction rows arbitrary: s)
  case Nil
  show ?case by simp
next
  case (Cons row rows)
  obtain f n where row: "row = (f, n)" by (cases row)
  show ?case by (simp add: row Cons.IH resync_names)
qed

lemma loop_keep:
  assumes "r \<in> set (store s)"
    and "\<And>n. (filename r, n) \<in> set rows \<Longrightarrow>
           n \<ge> getenv_int (MAX_RETRIES e) 5 \<or> fs s (BackupDir, filename r) = None"
  shows "r \<in> set (store (resync_loop e rows s))
       \<and> fs (resync_loop e rows s) (BackupDir, filename r) = fs s (BackupDir, filename r)"
  using assms
proof (induction rows arbitrary: s)
  case Nil
  then show ?case by simp
next
  case (Cons row rows)
  obtain g n where row: "row = (g, n)" by (cases row)
  let ?s1 = "resync_file e (g, n) s"
  have step: "r \<in> set (store ?s1) \<and> fs ?s1 (BackupDir, filename r) = fs s (BackupDir, filename r)"
  proof (cases "g = filename r")
    case True
    then have "n \<ge> getenv_int (MAX_RETRIES e) 5 \<or> fs s (BackupDir, g) = None"
      using Cons.prems(2)[of n] row by simp
    then have "?s1 = s" by (rule resync_skip)
    then show ?thesis using Cons.prems(1) by simp
  next
    case False
    then show ?thesis using Cons.prems(1) resync_store_other[of r s g e n]
      resync_fs_other[of "filename r" g e n s] by auto
  qed
  have "r \<in> set (store (resync_loop e rows ?s1))
       \<and> fs (resync_loop e rows ?s1) (BackupDir, filename r) = fs ?s1 (BackupDir, filename r)"
  proof (rule Cons.IH)
    show "r \<in> set (store ?s1)" using step by simp
    fix m assume "(filename r, m) \<in> set rows"
    then show "m \<ge> getenv_int (MAX_RETRIES e) 5 \<or> fs ?s1 (BackupDir, filename r) = None"
      using Cons.prems(2)[of m] step by simp
  qed
  then show ?case using step by (simp add: row)
qed

lemma loop_fs_other:
  "f \<notin> fst ` set rows \<Longrightarrow> fs (resync_loop e rows s) (BackupDir, f) = fs s (BackupDir, f)"
proof (induction rows arbitrary: s)
  case Nil
  show ?case by simp
next
  case (Cons row rows)
  obtain g n where row: "row = (g, n)" by (cases row)
  have "g \<noteq> f" "f \<notin> fst ` set rows" using Cons.prems row by auto
  then show ?case using Cons.IH[of "resync_file e (g, n) s"] resync_fs_other[of f g e n s]
    by (simp add: row)
qed

lemma loop_trace:
  "distinct (map fst rows) \<Longrightarrow>
   trace (resync_loop e rows s) =
     trace s @ concat (map (\<lambda>row. new_events s (resync_file e row s)) rows)"
proof (induction rows arbitrary: s)
  case Nil
  show ?case by simp
next
  case (Cons row rows)
  obtain g n where row: "row = (g, n)" by (cases row)
  let ?s1 = "resync_file e (g, n) s"
  have d: "distinct (map fst rows)" and notin: "g \<notin> fst ` set rows"
    using Cons.prems row by auto
  have same: "map (\<lambda>x. new_events ?s1 (resync_file e x ?s1)) rows
            = map (\<lambda>x. new_events s (resync_file e x s)) rows"
  proof (rule map_cong[OF refl])
    fix x assume x: "x \<in> set rows"
    obtain h m where xh: "x = (h, m)" by (cases x)
    have "h \<noteq> g" using x xh notin by force
    then have "fs ?s1 (BackupDir, h) = fs s (BackupDir, h)" by (rule resync_fs_other)
    then show "new_events ?s1 (resync_file e x ?s1) = new_events s (resync_file e x s)"
      unfolding xh by (rule resync_indep)
  qed
  have "trace (resync_loop e (row # rows) s)
          = trace ?s1 @ concat (map (\<lambda>x. new_events ?s1 (resync_file e x ?s1)) rows)"
    using Cons.IH[OF d, of ?s1] by (simp add: row)
  also have "\<dots> = trace s @ new_events s ?s1 @ concat (map (\<lambda>x. new_events s (resync_file e x s)) rows)"
    unfolding same using resync_trace[of e g n s] by simp
  finally show ?case by (simp add: row)
qed

lemma select_backup_fst: "map fst (select_backup rows) = map filename (filter (\<lambda>r. upload_status r = Backup) rows)"
  by (simp add: select_backup_def comp_def)

lemma select_backup_distinct:
  "distinct (map filename rows) \<Longrightarrow> distinct (map fst (select_backup rows))"
  unfolding select_backup_fst by (rule distinct_map_filter)

lemma distinct_filename_eq:
  "distinct (map filename rows) \<Longrightarrow> r \<in> set rows \<Longrightarrow> x \<in> set rows
     \<Longrightarrow> filename x = filename r \<Longrightarrow> x = r"
  by (meson distinct_map inj_onD)

lemma select_backup_entry:
  assumes "distinct (map filename rows)" "r \<in> set rows" "(filename r, n) \<in> set (select_backup rows)"
  shows "n = retries r \<and> upload_status r = Backup"
proof -
  obtain x where x: "x \<in> set rows" "upload_status x = Backup" "filename x = filename r" "retries x = n"
    using assms(3) by (auto simp: select_backup_def)
  then have "x = r" using distinct_filename_eq[OF assms(1,2)] by blast
  then show ?thesis using x by simp
qed

lemma select_backup_mem:
  "r \<in> set rows \<Longrightarrow> upload_status r = Backup \<Longrightarrow> (filename r, retries r) \<in> set (select_backup rows)"
  by (auto simp: select_backup_def)

lemma loop_keep_absent:
  assumes "r \<in> set (store s)" "filename r \<notin> fst ` set rows"
  shows "r \<in> set (store (resync_loop e rows s))"
    and "fs (resync_loop e rows s) (BackupDir, filename r) = fs s (BackupDir, filename r)"
proof -
  have "\<And>n. (filename r, n) \<in> set rows \<Longrightarrow>
           n \<ge> getenv_int (MAX_RETRIES e) 5 \<or> fs s (BackupDir, filename r) = None"
    using assms(2) by force
  from loop_keep[OF assms(1) this]
  show "r \<in> set (store (resync_loop e rows s))"
    and "fs (resync_loop e rows s) (BackupDir, filename r) = fs s (BackupDir, filename r)"
    by simp_all
qed

lemma loop_split:
  assumes d: "distinct (map fst rows)" and mem: "(f, n) \<in> set rows"
    and r: "r \<in> set (store s)" and fr: "filename r = f"
  obtains s1 where "r \<in> set (store s1)" "fs s1 (BackupDir, f) = fs s (BackupDir, f)"
    "\<And>x. x \<in> set (store (resync_file e (f, n) s1)) \<Longrightarrow> filename x = f
         \<Longrightarrow> x \<in> set (store (resync_loop e rows s))"
proof -
  obtain pre post where rows: "rows = pre @ (f, n) # post"
    using mem by (meson split_list)
  have npre: "f \<notin> fst ` set pre" and npost: "f \<notin> fst ` set post"
    using d unfolding rows by auto
  let ?s1 = "resync_loop e pre s"
  have a: "r \<in> set (store ?s1)" using loop_keep_absent(1)[OF r] npre fr by simp
  have b: "fs ?s1 (BackupDir, f) = fs s (BackupDir, f)"
    using loop_keep_absent(2)[OF r, of pre e] npre fr by simp
  have c: "\<And>x. x \<in> set (store (resync_file e (f, n) ?s1)) \<Longrightarrow> filename x = f
         \<Longrightarrow> x \<in> set (store (resync_loop e rows s))"
  proof -
    fix x assume x: "x \<in> set (store (resync_file e (f, n) ?s1))" "filename x = f"
    have "x \<in> set (store (resync_loop e post (resync_file e (f, n) ?s1)))"
      using loop_keep_absent(1)[OF x(1), of post e] npost x(2) by simp
    then show "x \<in> set (store (resync_loop e rows s))"
      by (simp add: rows resync_loop_append)
  qed
  from a b c show ?thesis by (rule that)
qed

lemma increment_retries_mem:
  "r \<in> set rows \<Longrightarrow> filename r = f \<Longrightarrow> r\<lparr>retries := retries r + 1\<rparr> \<in> set (increment_retries f rows)"
  by (simp add: increment_retries_def image_iff) (rule bexI[of _ r], simp_all)

lemma update_status_mem:
  "r \<in> set rows \<Longrightarrow> filename r = f \<Longrightarrow> r\<lparr>upload_status := st\<rparr> \<in> set (update_status f st rows)"
  by (simp add: update_status_def image_iff) (rule bexI[of _ r], simp_all)

lemma run_skipped:
  assumes d: "distinct (map filename (store s))"
    and r: "r \<in> set (store s)"
    and skip: "retries r \<ge> getenv_int (MAX_RETRIES e) 5 \<or> fs s (BackupDir, filename r) = None"
  shows "r \<in> set (store (process_backup_files e s))"
    and "fs (process_backup_files e s) (BackupDir, filename r) = fs s (BackupDir, filename r)"
    and "SinkUpload (filename r) c \<notin> set (new_events s (process_backup_files e s))"
proof -
  let ?rows = "select_backup (store s)"
  have entries: "n \<ge> getenv_int (MAX_RETRIES e) 5 \<or> fs s (BackupDir, filename r) = None"
    if "(filename r, n) \<in> set ?rows" for n
  proof -
    have "n = retries r" using select_backup_entry[OF d r that] by simp
    then show ?thesis using skip by simp
  qed
  have keep: "r \<in> set (store (resync_loop e ?rows s))
       \<and> fs (resync_loop e ?rows s) (BackupDir, filename r) = fs s (BackupDir, filename r)"
    using r entries by (rule loop_keep)
  show "r \<in> set (store (process_backup_files e s))"
    using keep by (simp add: process_backup_files_def)
  show "fs (process_backup_files e s) (BackupDir, filename r) = fs s (BackupDir, filename r)"
    using keep by (simp add: process_backup_files_def)
  have dr: "distinct (map fst ?rows)" using d by (rule select_backup_distinct)
  have ev: "new_events s (process_backup_files e s)
        = concat (map (\<lambda>row. new_events s (resync_file e row s)) ?rows)"
    unfolding process_backup_files_def by (rule new_events_eqI) (rule loop_trace[OF dr])
  show "SinkUpload (filename r) c \<notin> set (new_events s (process_backup_files e s))"
  proof
    assume "SinkUpload (filename r) c \<in> set (new_events s (process_backup_files e s))"
    then have "\<exists>row \<in> set ?rows. SinkUpload (filename r) c \<in> set (new_events s (resync_file e row s))"
      unfolding ev by simp
    then obtain row where row: "row \<in> set ?rows"
      and inrow: "SinkUpload (filename r) c \<in> set (new_events s (resync_file e row s))"
      by blast
    obtain g n where gn: "row = (g, n)" by (cases row)
    have "filename r = g" using inrow unfolding gn by (rule resync_events_sink)
    then have "n \<ge> getenv_int (MAX_RETRIES e) 5 \<or> fs s (BackupDir, g) = None"
      using entries[of n] row gn by simp
    then have "resync_file e row s = s" unfolding gn by (rule resync_skip)
    then show False using inrow by (simp add: new_events_def)
  qed
qed

lemma run_events:
  assumes d: "distinct (map filename (store s))"
  shows "new_events s (process_backup_files e s)
        = concat (map (\<lambda>row. new_events s (resync_file e row s)) (select_backup (store s)))"
  unfolding process_backup_files_def
  by (rule new_events_eqI) (rule loop_trace[OF select_backup_distinct[OF d]])

lemma run_names: "map filename (store (process_backup_files e s)) = map filename (store s)"
  by (simp add: process_backup_files_def loop_names)

lemma run_attempted:
  assumes d: "distinct (map filename (store s))"
    and r: "r \<in> set (store s)" and b: "upload_status r = Backup"
  obtains s1 where "r \<in> set (store s1)"
    "fs s1 (BackupDir, filename r) = fs s (BackupDir, filename r)"
    "\<And>x. x \<in> set (store (resync_file e (filename r, retries r) s1)) \<Longrightarrow> filename x = filename r
         \<Longrightarrow> x \<in> set (store (process_backup_files e s))"
proof -
  have dr: "distinct (map fst (select_backup (store s)))" using d by (rule select_backup_distinct)
  have mem: "(filename r, retries r) \<in> set (select_backup (store s))"
    using r b by (rule select_backup_mem)
  show thesis
  proof (rule loop_split[OF dr mem r refl, of e])
    fix s1
    assume a: "r \<in> set (store s1)"
      and b: "fs s1 (BackupDir, filename r) = fs s (BackupDir, filename r)"
      and c: "\<And>x. x \<in> set (store (resync_file e (filename r, retries r) s1)) \<Longrightarrow>
            filename x = filename r \<Longrightarrow>
            x \<in> set (store (resync_loop e (select_backup (store s)) s))"
    show thesis
    proof (rule that[OF a b])
      fix x assume "x \<in> set (store (resync_file e (filename r, retries r) s1))" "filename x = filename r"
      then show "x \<in> set (store (process_backup_files e s))"
        unfolding process_backup_files_def by (rule c)
    qed
  qed
qed

subsection \<open>The delivery step\<close>

lemma hfp_noop:
  "select_success (store s) f \<Longrightarrow> fs s p \<noteq> None \<Longrightarrow> handle_file_processing e f p s = (True, s)"
  by (auto simp: handle_file_processing_def calculate_checksum_def)

lemma try_upload_ok_events:
  "fst (try_upload e p s) = Inr u \<Longrightarrow> \<exists>w. new_events s (snd (try_upload e p s)) = [SinkUpload (snd p) w]"
  by (auto simp: try_upload_def log_event_def Let_def new_events_def split: option.splits sum.splits if_splits)

lemma upload_ok_events:
  assumes "fst (upload_to_onedrive e p s)"
  shows "\<exists>w. new_events s (snd (upload_to_onedrive e p s)) = [SinkUpload (snd p) w]"
proof -
  obtain u where u: "fst (try_upload e p s) = Inr u" using assms unfolding upload_fst by blast
  then show ?thesis using try_upload_ok_events[OF u] by (simp add: upload_events_eq)
qed

lemma hfp_success:
  assumes "fs s p = Some c" "\<not> select_success (store s) f" "fst (upload_to_onedrive e p s)"
  shows "handle_file_processing e f p s =
     (True, (snd (upload_to_onedrive e p (s\<lparr>store := insert_or_replace (new_record e f c Pending) (store s)\<rparr>)))
        \<lparr>store := update_status f Success (insert_or_replace (new_record e f c Pending) (store s))\<rparr>)"
proof -
  let ?s1 = "s\<lparr>store := insert_or_replace (new_record e f c Pending) (store s)\<rparr>"
  have "fs ?s1 p = fs s p" by simp
  then have ok: "fst (upload_to_onedrive e p ?s1)" using upload_indep(1)[of ?s1 p s e] assms(3) by simp
  show ?thesis using assms(1,2) ok
    by (simp add: handle_file_processing_def calculate_checksum_def new_record_def Let_def split_beta
        upload_frame)
qed

lemma filter_new_row:
  "filter (\<lambda>x. filename x = f) (update_status f st (insert_or_replace (new_record e f c Pending) rows))
     = [new_record e f c st]"
proof -
  have "filter (\<lambda>x. filename x = f) (update_status f st (filter (\<lambda>x. filename x \<noteq> f) rows)) = []"
    by (induction rows) (simp_all add: update_status_def)
  then show ?thesis
    by (simp add: insert_or_replace_def new_record_def update_status_def)
qed

lemma backup_not_success:
  assumes "distinct (map filename rows)" "r \<in> set rows" "upload_status r = Backup"
  shows "\<not> select_success rows (filename r)"
proof
  assume "select_success rows (filename r)"
  then obtain x where x: "x \<in> set rows" "filename x = filename r" "upload_status x = Success"
    by (auto simp: select_success_def list_ex_iff)
  then have "x = r" using distinct_filename_eq[OF assms(1,2)] by blast
  then show False using x(3) assms(3) by simp
qed

subsection \<open>Evaluating the scenarios\<close>

lemmas scen = s_backlog_def s_empty_def row_of_def env_offline_def env_ok_def getenv_int_def

lemma bl_distinct: "distinct (map filename (store s_backlog))"
  by (simp add: scen)

lemma up_fail: "\<not> fst (upload_to_onedrive env_offline (BackupDir, ''IMG_02.JPG'') s_backlog)"
  by (simp add: upload_fst try_upload_def scen upload_temp_path_def verify_file_def Let_def log_event_def)

lemmas hfp_eval = handle_file_processing_def download_path_def calculate_checksum_def
      select_success_def insert_or_replace_def
      upload_to_onedrive_def try_upload_def upload_temp_path_def verify_file_def log_event_def
      send_notification_def sms_commands_def getenv_str_def rename_path_def processing_failed_def
      no_such_file_def path_str_def Let_def sublist_Cons_right update_status_def new_events_def
      is_notify_def

lemma resync_backup_transitions:
  assumes "distinct (map filename (store s))"
    and "r \<in> set (store s)" and "upload_status r = Backup"
  shows "(r \<in> set (store (process_backup_files e s))
          \<or> r\<lparr>upload_status := Success\<rparr> \<in> set (store (process_backup_files e s))
          \<or> r\<lparr>retries := retries r + 1\<rparr> \<in> set (store (process_backup_files e s)))
       \<and> map filename (store (process_backup_files e s)) = map filename (store s)"
proof -
  let ?f = "filename r"
  obtain s1 where s1: "r \<in> set (store s1)"
    "\<And>x. x \<in> set (store (resync_file e (?f, retries r) s1)) \<Longrightarrow> filename x = ?f
         \<Longrightarrow> x \<in> set (store (process_backup_files e s))"
    using run_attempted[OF assms(1,2,3), of e] by blast
  let ?s2 = "resync_file e (?f, retries r) s1"
  have "r \<in> set (store ?s2) \<or> r\<lparr>retries := retries r + 1\<rparr> \<in> set (store ?s2)
        \<or> r\<lparr>upload_status := Success\<rparr> \<in> set (store ?s2)"
    using resync_store[of e ?f "retries r" s1] s1(1)
      increment_retries_mem[OF s1(1) refl] update_status_mem[OF s1(1) refl, of Success]
    by auto
  then show ?thesis using s1(2) run_names[of e s] by auto
qed

section \<open>Properties of the backlog resync job\<close>

text \<open>
  The theorems of this section are about a whole run of \<open>process_backup_files\<close>
  on a table with one row per file name. The run works on the snapshot
  \<open>select_backup\<close> of the rows in \<open>backup\<close>; the turn of one row changes only the
  row and the payload of its own file (lemmas \<open>resync_store_other\<close>,
  \<open>resync_fs_other\<close>), and its events depend only on that payload
  (\<open>resync_indep\<close>), so the events of the run are the events of the turns, each
  as it would be on the initial state (\<open>run_events\<close>).
\<close>

text \<open>
  Claim C5. A row in \<open>backup\<close> whose retries have reached \<open>MAX_RETRIES\<close>
  (default 5) is left as it is by a resync run: the row is still in the table
  (which has the same file names in the same order), its payload in the backup
  directory is untouched, the run hands no upload of that file to the sink, and
  its turn in the loop adds no event at all, the events of the run being those
  of the turns. (Every call of \<open>upload_to_onedrive\<close> adds an event: the upload
  handed to the sink, or the notification of its failure.)
\<close>

theorem resync_skips_exhausted:
  assumes "distinct (map filename (store s))"
    and "r \<in> set (store s)" and "upload_status r = Backup"
    and "retries r \<ge> getenv_int (MAX_RETRIES e) 5"
  shows "r \<in> set (store (process_backup_files e s))
       \<and> map filename (store (process_backup_files e s)) = map filename (store s)
       \<and> fs (process_backup_files e s) (BackupDir, filename r) = fs s (BackupDir, filename r)
       \<and> (\<forall>c. SinkUpload (filename r) c \<notin> set (new_events s (process_backup_files e s)))
       \<and> new_events s (process_backup_files e s)
           = concat (map (\<lambda>row. new_events s (resync_file e row s)) (select_backup (store s)))
       \<and> new_events s (resync_file e (filename r, retries r) s) = []"
proof -
  have "new_events s (resync_file e (filename r, retries r) s) = []"
    using assms(4) by (simp add: resync_events_eq)
  then show ?thesis
    using run_skipped[OF assms(1,2), of e] assms(4) run_names[of e s] run_events[OF assms(1), of e]
    by simp
qed

theorem resync_skips_exhausted_witness:
  "distinct (map filename (store s_backlog))
   \<and> row_of ''IMG_09.JPG'' Backup 5 \<in> set (store s_backlog)
   \<and> upload_status (row_of ''IMG_09.JPG'' Backup 5) = Backup
   \<and> retries (row_of ''IMG_09.JPG'' Backup 5) \<ge> getenv_int (MAX_RETRIES env_offline) 5
   \<and> row_of ''IMG_09.JPG'' Backup 5 \<in> set (store (process_backup_files env_offline s_backlog))
   \<and> fs (process_backup_files env_offline s_backlog) (BackupDir, ''IMG_09.JPG'') = Some ''jpeg-bytes''
   \<and> (\<forall>c. SinkUpload ''IMG_09.JPG'' c
          \<notin> set (new_events s_backlog (process_backup_files env_offline s_backlog)))
   \<and> new_events s_backlog (resync_file env_offline (''IMG_09.JPG'', 5) s_backlog) = []"
proof -
  let ?r = "row_of ''IMG_09.JPG'' Backup 5"
  have h1: "distinct (map filename (store s_backlog))" by (rule bl_distinct)
  have h2: "?r \<in> set (store s_backlog)" by (simp add: scen)
  have h3: "upload_status ?r = Backup" by (simp add: row_of_def)
  have h4: "retries ?r \<ge> getenv_int (MAX_RETRIES env_offline) 5" by (simp add: scen)
  have f: "filename ?r = ''IMG_09.JPG''" "retries ?r = 5" by (simp_all add: row_of_def)
  have g: "fs s_backlog (BackupDir, ''IMG_09.JPG'') = Some ''jpeg-bytes''" by (simp add: scen)
  show ?thesis
    using h1 h2 h3 h4 resync_skips_exhausted[OF h1 h2 h3 h4] unfolding f g by blast
qed

text \<open>
  Claim C10. A row in \<open>backup\<close> below the retry ceiling whose payload is not in the
  backup directory is left as it is by a resync run: the row is still in the
  table, no upload of that file reaches the sink, and its turn in the loop adds
  no event at all (no notification), the events of the run being those of the
  turns.
\<close>

theorem resync_skips_missing_payload:
  assumes "distinct (map filename (store s))"
    and "r \<in> set (store s)" and "upload_status r = Backup"
    and "retries r < getenv_int (MAX_RETRIES e) 5"
    and "fs s (BackupDir, filename r) = None"
  shows "r \<in> set (store (process_backup_files e s))
       \<and> map filename (store (process_backup_files e s)) = map filename (store s)
       \<and> (\<forall>c. SinkUpload (filename r) c \<notin> set (new_events s (process_backup_files e s)))
       \<and> new_events s (process_backup_files e s)
           = concat (map (\<lambda>row. new_events s (resync_file e row s)) (select_backup (store s)))
       \<and> new_events s (resync_file e (filename r, retries r) s) = []"
proof -
  have "new_events s (resync_file e (filename r, retries r) s) = []"
    using assms(5) by (simp add: resync_events_eq)
  then show ?thesis
    using run_skipped[OF assms(1,2), of e] assms(5) run_names[of e s] run_events[OF assms(1), of e]
    by simp
qed

theorem resync_skips_missing_payload_witness:
  "distinct (map filename (store s_backlog))
   \<and> row_of ''IMG_03.JPG'' Backup 0 \<in> set (store s_backlog)
   \<and> upload_status (row_of ''IMG_03.JPG'' Backup 0) = Backup
   \<and> retries (row_of ''IMG_03.JPG'' Backup 0) < getenv_int (MAX_RETRIES env_offline) 5
   \<and> fs s_backlog (BackupDir, filename (row_of ''IMG_03.JPG'' Backup 0)) = None
   \<and> row_of ''IMG_03.JPG'' Backup 0 \<in> set (store (process_backup_files env_offline s_backlog))
   \<and> (\<forall>c. SinkUpload ''IMG_03.JPG'' c
          \<notin> set (new_events s_backlog (process_backup_files env_offline s_backlog)))
   \<and> new_events s_backlog (resync_file env_offline (''IMG_03.JPG'', 0) s_backlog) = []"
proof -
  let ?r = "row_of ''IMG_03.JPG'' Backup 0"
  have h1: "distinct (map filename (store s_backlog))" by (rule bl_distinct)
  have h2: "?r \<in> set (store s_backlog)" by (simp add: scen)
  have h3: "upload_status ?r = Backup" by (simp add: row_of_def)
  have h4: "retries ?r < getenv_int (MAX_RETRIES env_offline) 5" by (simp add: scen)
  have h5: "fs s_backlog (BackupDir, filename ?r) = None" by (simp add: scen)
  have f: "filename ?r = ''IMG_03.JPG''" "retries ?r = 0" by (simp_all add: row_of_def)
  show ?thesis
    using h1 h2 h3 h4 h5 resync_skips_missing_payload[OF h1 h2 h3 h4 h5] unfolding f by blast
qed

text \<open>
  Claim C6, as the claim states it, fails: the upload step itself notifies. In
  the backlog scenario the only attempted file is \<open>IMG_02.JPG\<close>; its upload
  times out, its retries go from 4 to 5, and the run has sent one MEDIUM
  notification.
\<close>

theorem resync_failed_retry_notifies:
  "map retries (store (process_backup_files env_offline s_backlog)) = [5, 0, 5, 0]
   \<and> filter is_notify (new_events s_backlog (process_backup_files env_offline s_backlog))
       = [Notify ''OneDrive upload failed: timed out'' MEDIUM]"
  by (simp add: process_backup_files_def select_backup_def resync_file_def upload_to_onedrive_def
      try_upload_def upload_temp_path_def verify_file_def rename_path_def send_notification_def
      sms_commands_def getenv_str_def log_event_def increment_retries_def update_status_def
      new_events_def is_notify_def Let_def sublist_Cons_right scen)

text \<open>
  Claim C6, amended. For a row in \<open>backup\<close> below the retry ceiling whose payload
  exists and whose upload fails, a resync run increments the retries of the row
  by exactly one, in place; the turn of that row sends exactly one notification,
  the MEDIUM \<open>OneDrive upload failed\<close> of \<open>upload_to_onedrive\<close>, and
  \<open>process_backup_files\<close> adds none of its own.
\<close>

theorem resync_failed_retry:
  assumes "distinct (map filename (store s))"
    and "r \<in> set (store s)" and "upload_status r = Backup"
    and "retries r < getenv_int (MAX_RETRIES e) 5"
    and "fs s (BackupDir, filename r) \<noteq> None"
    and "\<not> fst (upload_to_onedrive e (BackupDir, filename r) s)"
  shows "r\<lparr>retries := retries r + 1\<rparr> \<in> set (store (process_backup_files e s))
       \<and> map filename (store (process_backup_files e s)) = map filename (store s)
       \<and> new_events s (process_backup_files e s)
           = concat (map (\<lambda>row. new_events s (resync_file e row s)) (select_backup (store s)))
       \<and> (\<exists>err. filter is_notify (new_events s (resync_file e (filename r, retries r) s))
                  = [Notify (''OneDrive upload failed: '' @ err) MEDIUM])"
proof -
  let ?f = "filename r"
  obtain s1 where s1: "r \<in> set (store s1)"
    "fs s1 (BackupDir, ?f) = fs s (BackupDir, ?f)"
    "\<And>x. x \<in> set (store (resync_file e (?f, retries r) s1)) \<Longrightarrow> filename x = ?f
         \<Longrightarrow> x \<in> set (store (process_backup_files e s))"
    using run_attempted[OF assms(1,2,3), of e] by blast
  have nf: "\<not> fst (upload_to_onedrive e (BackupDir, ?f) s1)"
    using upload_indep(1)[OF s1(2), of e] assms(6) by simp
  have ex: "fs s1 (BackupDir, ?f) \<noteq> None" using s1(2) assms(5) by simp
  have "store (resync_file e (?f, retries r) s1) = increment_retries ?f (store s1)"
    by (simp add: resync_fail[OF assms(4) ex nf] upload_frame)
  then have "r\<lparr>retries := retries r + 1\<rparr> \<in> set (store (resync_file e (?f, retries r) s1))"
    using increment_retries_mem[OF s1(1) refl] by simp
  then have a: "r\<lparr>retries := retries r + 1\<rparr> \<in> set (store (process_backup_files e s))"
    by (rule s1(3)) simp
  obtain err where err: "fst (try_upload e (BackupDir, ?f) s) = Inl err"
    using assms(6) unfolding upload_fst by (cases "fst (try_upload e (BackupDir, ?f) s)") auto
  have c: "\<not> (retries r \<ge> getenv_int (MAX_RETRIES e) 5 \<or> fs s (BackupDir, ?f) = None)"
    using assms(4,5) by simp
  have "filter is_notify (new_events s (resync_file e (?f, retries r) s))
          = [Notify (''OneDrive upload failed: '' @ err) MEDIUM]"
    unfolding resync_events_eq using c assms(6) err
    by (simp add: upload_events_notify del: not_None_eq)
  then show ?thesis using a run_names[of e s] run_events[OF assms(1), of e] by blast
qed

theorem resync_failed_retry_witness:
  "distinct (map filename (store s_backlog))
   \<and> row_of ''IMG_02.JPG'' Backup 4 \<in> set (store s_backlog)
   \<and> upload_status (row_of ''IMG_02.JPG'' Backup 4) = Backup
   \<and> retries (row_of ''IMG_02.JPG'' Backup 4) < getenv_int (MAX_RETRIES env_offline) 5
   \<and> fs s_backlog (BackupDir, filename (row_of ''IMG_02.JPG'' Backup 4)) \<noteq> None
   \<and> \<not> fst (upload_to_onedrive env_offline (BackupDir, filename (row_of ''IMG_02.JPG'' Backup 4)) s_backlog)
   \<and> row_of ''IMG_02.JPG'' Backup 5 \<in> set (store (process_backup_files env_offline s_backlog))"
proof -
  let ?r = "row_of ''IMG_02.JPG'' Backup 4"
  have h1: "distinct (map filename (store s_backlog))" by (rule bl_distinct)
  have h2: "?r \<in> set (store s_backlog)" by (simp add: scen)
  have h3: "upload_status ?r = Backup" by (simp add: row_of_def)
  have h4: "retries ?r < getenv_int (MAX_RETRIES env_offline) 5" by (simp add: scen)
  have h5: "fs s_backlog (BackupDir, filename ?r) \<noteq> None" by (simp add: scen)
  have h6: "\<not> fst (upload_to_onedrive env_offline (BackupDir, filename ?r) s_backlog)"
    using up_fail by (simp add: row_of_def)
  have e: "?r\<lparr>retries := retries ?r + 1\<rparr> = row_of ''IMG_02.JPG'' Backup 5"
    by (simp add: row_of_def)
  show ?thesis
    using h1 h2 h3 h4 h5 h6 resync_failed_retry[OF h1 h2 h3 h4 h5 h6] unfolding e by blast
qed

section \<open>Transitions of a record in backup\<close>

text \<open>
  Claim C2, as the claim states it, fails for fresh discovery: the guard of
  \<open>handle_file_processing\<close> looks for \<open>success\<close> only, so a file whose record is
  in \<open>backup\<close> with four retries gets a new record, \<open>pending\<close> with retries 0.
  (Here the upload fails again and the record stays so.)
\<close>

theorem fresh_discovery_resets_backup_record:
  "row_of ''IMG_02.JPG'' Backup 4 \<in> set (store s_rediscovered)
   \<and> map (\<lambda>r. (filename r, upload_status r, retries r))
        (store (snd (handle_file_processing env_offline ''IMG_02.JPG''
           (download_path env_offline ''IMG_02.JPG'') s_rediscovered)))
      = [(''IMG_03.JPG'', Backup, 0), (''IMG_09.JPG'', Backup, 5), (''IMG_01.JPG'', Success, 0),
         (''IMG_02.JPG'', Pending, 0)]"
  by (simp add: hfp_eval s_rediscovered_def scen)

text \<open>
  Claim C2, amended. A resync run leaves a record in \<open>backup\<close> unchanged (its
  turn was skipped), or sets it to \<open>success\<close>, or increments its retries by one;
  it never sets \<open>pending\<close> and never lowers the retries. Fresh discovery is not
  bound by this: \<open>handle_file_processing\<close> replaces the record by a new one
  with retries 0, which is \<open>success\<close> when the upload succeeds.
\<close>

theorem backup_record_transitions:
  assumes "distinct (map filename (store s))"
    and "r \<in> set (store s)" and "upload_status r = Backup"
  shows "(r \<in> set (store (process_backup_files e s))
          \<or> r\<lparr>upload_status := Success\<rparr> \<in> set (store (process_backup_files e s))
          \<or> r\<lparr>retries := retries r + 1\<rparr> \<in> set (store (process_backup_files e s)))
       \<and> map filename (store (process_backup_files e s)) = map filename (store s)
       \<and> (\<forall>p c. fs s p = Some c \<and> fst (upload_to_onedrive e p s) \<longrightarrow>
             fst (handle_file_processing e (filename r) p s)
             \<and> filter (\<lambda>x. filename x = filename r)
                  (store (snd (handle_file_processing e (filename r) p s)))
                 = [new_record e (filename r) c Success])"
proof -
  have ns: "\<not> select_success (store s) (filename r)" using assms by (rule backup_not_success)
  have "fst (handle_file_processing e (filename r) p s)
        \<and> filter (\<lambda>x. filename x = filename r)
                  (store (snd (handle_file_processing e (filename r) p s)))
                 = [new_record e (filename r) c Success]"
    if "fs s p = Some c" "fst (upload_to_onedrive e p s)" for p c
    by (simp add: hfp_success[OF that(1) ns that(2)] filter_new_row)
  then show ?thesis using resync_backup_transitions[OF assms, of e] by blast
qed

theorem backup_record_transitions_witness:
  "distinct (map filename (store s_rediscovered))
   \<and> row_of ''IMG_02.JPG'' Backup 4 \<in> set (store s_rediscovered)
   \<and> upload_status (row_of ''IMG_02.JPG'' Backup 4) = Backup
   \<and> (row_of ''IMG_02.JPG'' Backup 4 \<in> set (store (process_backup_files env_ok s_rediscovered))
       \<or> row_of ''IMG_02.JPG'' Success 4 \<in> set (store (process_backup_files env_ok s_rediscovered))
       \<or> row_of ''IMG_02.JPG'' Backup 5 \<in> set (store (process_backup_files env_ok s_rediscovered)))
   \<and> fs s_rediscovered (download_path env_offline ''IMG_02.JPG'') = Some ''jpeg-bytes''
   \<and> fst (upload_to_onedrive env_ok (download_path env_offline ''IMG_02.JPG'') s_rediscovered)
   \<and> fst (handle_file_processing env_ok ''IMG_02.JPG''
            (download_path env_offline ''IMG_02.JPG'') s_rediscovered)
   \<and> filter (\<lambda>x. filename x = ''IMG_02.JPG'')
        (store (snd (handle_file_processing env_ok ''IMG_02.JPG''
            (download_path env_offline ''IMG_02.JPG'') s_rediscovered)))
       = [new_record env_ok ''IMG_02.JPG'' ''jpeg-bytes'' Success]"
proof -
  let ?r = "row_of ''IMG_02.JPG'' Backup 4"
  let ?p = "download_path env_offline ''IMG_02.JPG''"
  have h1: "distinct (map filename (store s_rediscovered))" by (simp add: s_rediscovered_def scen)
  have h2: "?r \<in> set (store s_rediscovered)" by (simp add: s_rediscovered_def scen)
  have h3: "upload_status ?r = Backup" by (simp add: row_of_def)
  have h4: "fs s_rediscovered ?p = Some ''jpeg-bytes''" by (simp add: s_rediscovered_def)
  have h5: "fst (upload_to_onedrive env_ok ?p s_rediscovered)"
    by (simp add: upload_fst try_upload_def s_rediscovered_def scen download_path_def
        upload_temp_path_def verify_file_def Let_def log_event_def)
  have f: "filename ?r = ''IMG_02.JPG''" "?r\<lparr>upload_status := Success\<rparr> = row_of ''IMG_02.JPG'' Success 4"
    "?r\<lparr>retries := retries ?r + 1\<rparr> = row_of ''IMG_02.JPG'' Backup 5"
    by (simp_all add: row_of_def)
  show ?thesis
    using h1 h2 h3 h4 h5 backup_record_transitions[OF h1 h2 h3, of env_ok] unfolding f by blast
qed

section \<open>Idempotent delivery\<close>

text \<open>
  Claim C4. A first delivery of a file whose upload succeeds leaves exactly one
  row of that file name, in \<open>success\<close>, after exactly one upload to the sink. A
  second delivery of the same content then returns True and leaves the whole
  state as it is: no write to the table, no upload, no notification. The same
  holds in any state whose table marks the file \<open>success\<close>.
\<close>

theorem delivery_idempotent:
  assumes "fs s p = Some c" and "\<not> select_success (store s) f"
    and "fst (upload_to_onedrive e p s)"
    and "fs (snd (handle_file_processing e f p s)) p2 = Some c"
  shows "fst (handle_file_processing e f p s)
       \<and> filter (\<lambda>x. filename x = f) (store (snd (handle_file_processing e f p s)))
           = [new_record e f c Success]
       \<and> (\<exists>w. new_events s (snd (handle_file_processing e f p s)) = [SinkUpload (snd p) w])
       \<and> handle_file_processing e f p2 (snd (handle_file_processing e f p s))
           = (True, snd (handle_file_processing e f p s))
       \<and> (\<forall>t q. select_success (store t) f \<and> fs t q \<noteq> None
             \<longrightarrow> handle_file_processing e f q t = (True, t))"
proof -
  let ?s1 = "s\<lparr>store := insert_or_replace (new_record e f c Pending) (store s)\<rparr>"
  let ?s' = "snd (handle_file_processing e f p s)"
  have eq: "handle_file_processing e f p s =
     (True, (snd (upload_to_onedrive e p ?s1))
        \<lparr>store := update_status f Success (insert_or_replace (new_record e f c Pending) (store s))\<rparr>)"
    using assms(1,2,3) by (rule hfp_success)
  have a: "fst (handle_file_processing e f p s)" by (simp add: eq)
  have b: "filter (\<lambda>x. filename x = f) (store ?s') = [new_record e f c Success]"
    by (simp add: eq filter_new_row)
  have fs1: "fs ?s1 p = fs s p" by simp
  have "new_events s ?s' = new_events ?s1 (snd (upload_to_onedrive e p ?s1))"
    by (simp add: eq new_events_def)
  also have "\<dots> = new_events s (snd (upload_to_onedrive e p s))"
    using fs1 by (rule upload_indep(2))
  finally have c: "\<exists>w. new_events s ?s' = [SinkUpload (snd p) w]"
    using upload_ok_events[OF assms(3)] by simp
  have "new_record e f c Success \<in> set (filter (\<lambda>x. filename x = f) (store ?s'))"
    unfolding b by simp
  then have "new_record e f c Success \<in> set (store ?s')" by simp
  then have sel: "select_success (store ?s') f"
    by (auto simp: select_success_def list_ex_iff new_record_def intro!: bexI[of _ "new_record e f c Success"])
  have d: "handle_file_processing e f p2 ?s' = (True, ?s')"
    using sel assms(4) by (simp add: hfp_noop)
  have g: "\<forall>t q. select_success (store t) f \<and> fs t q \<noteq> None
             \<longrightarrow> handle_file_processing e f q t = (True, t)"
    using hfp_noop by blast
  from a b c d g show ?thesis by blast
qed

theorem delivery_idempotent_witness:
  "fs s_twice (download_path env_offline ''IMG_02.JPG'') = Some ''jpeg-bytes''
   \<and> \<not> select_success (store s_twice) ''IMG_02.JPG''
   \<and> fst (upload_to_onedrive env_ok (download_path env_offline ''IMG_02.JPG'') s_twice)
   \<and> fs (snd (handle_file_processing env_ok ''IMG_02.JPG''
            (download_path env_offline ''IMG_02.JPG'') s_twice))
        (TempDir, ''timelapse_20240101_120100_IMG_02.JPG'') = Some ''jpeg-bytes''
   \<and> fst (handle_file_processing env_ok ''IMG_02.JPG''
            (download_path env_offline ''IMG_02.JPG'') s_twice)
   \<and> handle_file_processing env_ok ''IMG_02.JPG'' (TempDir, ''timelapse_20240101_120100_IMG_02.JPG'')
        (snd (handle_file_processing env_ok ''IMG_02.JPG''
            (download_path env_offline ''IMG_02.JPG'') s_twice))
      = (True, snd (handle_file_processing env_ok ''IMG_02.JPG''
            (download_path env_offline ''IMG_02.JPG'') s_twice))"
proof -
  let ?p = "download_path env_offline ''IMG_02.JPG''"
  have h1: "fs s_twice ?p = Some ''jpeg-bytes''"
    by (simp add: s_twice_def s_fresh_def download_path_def env_offline_def env_ok_def)
  have h2: "\<not> select_success (store s_twice) ''IMG_02.JPG''"
    by (simp add: s_twice_def s_fresh_def s_empty_def select_success_def)
  have h3: "fst (upload_to_onedrive env_ok ?p s_twice)"
    by (simp add: upload_fst try_upload_def s_twice_def s_fresh_def s_empty_def env_offline_def
        env_ok_def download_path_def upload_temp_path_def verify_file_def Let_def log_event_def)
  have h4: "fs (snd (handle_file_processing env_ok ''IMG_02.JPG'' ?p s_twice))
        (TempDir, ''timelapse_20240101_120100_IMG_02.JPG'') = Some ''jpeg-bytes''"
    by (simp add: hfp_eval s_twice_def s_fresh_def s_empty_def env_offline_def env_ok_def)
  show ?thesis
    using h1 h2 h3 h4 delivery_idempotent[OF h1 h2 h3 h4] by blast
qed

section \<open>Discovery after a restart\<close>

subsection \<open>What the delivery step may change\<close>

lemma processing_failed_eq:
  "processing_failed e f err s =
     (False, s\<lparr>trace := trace s @ notify_events e (''File processing failed for '' @ f @ '': '' @ err) HIGH\<rparr>)"
  by (simp add: processing_failed_def send_notification_snd)

text \<open>The delivery step when the table marks the file \<open>success\<close>.\<close>

lemma hfp_marked:
  assumes "select_success (store s) f"
  shows "store (snd (handle_file_processing e f p s)) = store s"
    and "fs (snd (handle_file_processing e f p s)) = fs s"
    and "camera (snd (handle_file_processing e f p s)) = camera s"
    and "\<exists>E. trace (snd (handle_file_processing e f p s)) = trace s @ E
           \<and> (\<forall>n c. SinkUpload n c \<notin> set E)"
  using assms
  by (cases "fs s p"; simp add: handle_file_processing_def calculate_checksum_def processing_failed_eq)+

lemma insert_or_replace_other:
  "r \<in> set rows \<Longrightarrow> filename r \<noteq> filename x \<Longrightarrow> r \<in> set (insert_or_replace x rows)"
  by (simp add: insert_or_replace_def)

lemma update_status_other:
  "r \<in> set rows \<Longrightarrow> filename r \<noteq> f \<Longrightarrow> r \<in> set (update_status f st rows)"
  by (simp add: update_status_def image_iff)

text \<open>The delivery step in general: what it may change.\<close>

lemma hfp_general:
  "camera (snd (handle_file_processing e f p s)) = camera s
   \<and> processed_files (snd (handle_file_processing e f p s)) = processed_files s
   \<and> (\<forall>r. r \<in> set (store s) \<and> filename r \<noteq> f
          \<longrightarrow> r \<in> set (store (snd (handle_file_processing e f p s))))
   \<and> (\<exists>E. trace (snd (handle_file_processing e f p s)) = trace s @ E
          \<and> (\<forall>n c. SinkUpload n c \<in> set E \<longrightarrow> n = snd p))"
proof (cases "fs s p")
  case None
  then show ?thesis
    by (simp add: handle_file_processing_def calculate_checksum_def processing_failed_eq)
next
  case (Some c)
  show ?thesis
  proof (cases "select_success (store s) f")
    case True
    then show ?thesis using Some
      by (simp add: handle_file_processing_def calculate_checksum_def)
  next
    case False
    define s1 where "s1 = s\<lparr>store := insert_or_replace (new_record e f c Pending) (store s)\<rparr>"
    define U where "U = snd (upload_to_onedrive e p s1)"
    define E where "E = new_events s1 U"
    have tU: "trace U = trace s @ E"
      unfolding U_def E_def using upload_trace[of e p s1] by (simp add: s1_def)
    have sink: "\<forall>n c. SinkUpload n c \<in> set E \<longrightarrow> n = snd p"
      unfolding E_def U_def using upload_events_sink by blast
    have cam: "camera U = camera s" "processed_files U = processed_files s" "store U = store s1"
      unfolding U_def by (simp_all add: upload_frame s1_def)
    have keep1: "r \<in> set (store s1)" if "r \<in> set (store s)" "filename r \<noteq> f" for r
      unfolding s1_def using that by (simp add: insert_or_replace_other new_record_def)
    have unfold: "handle_file_processing e f p s =
        (if fst (upload_to_onedrive e p s1)
         then (True, U\<lparr>store := update_status f Success (store U)\<rparr>)
         else (case rename_path e p (BackupDir, f) (fs U) of
                 Inl err \<Rightarrow> processing_failed e f err U
               | Inr files \<Rightarrow>
                   (True, snd (send_notification e
                       (''File '' @ f @ '' saved to backup storage after upload failure'') MEDIUM
                       (U\<lparr>fs := files, store := update_status f Backup (store U)\<rparr>)))))"
      using Some False
      by (simp add: handle_file_processing_def calculate_checksum_def Let_def split_beta
          s1_def U_def new_record_def split: sum.splits)
    show ?thesis
    proof (cases "fst (upload_to_onedrive e p s1)")
      case True
      then show ?thesis unfolding unfold using tU sink cam keep1
        by (simp add: update_status_other)
    next
      case nok: False
      show ?thesis
      proof (cases "rename_path e p (BackupDir, f) (fs U)")
        case (Inl err)
        then show ?thesis unfolding unfold using nok tU sink cam keep1
          by (auto simp: processing_failed_eq)
      next
        case (Inr files)
        then show ?thesis unfolding unfold using nok tU sink cam keep1
          by (auto simp: send_notification_snd update_status_other)
      qed
    qed
  qed
qed

subsection \<open>The capture source adapter\<close>

lemma connect_camera_eq:
  "connect_camera e s =
     (if list_ex (camera_init e) [0 ..< connect_retries] then (True, s\<lparr>camera := True\<rparr>)
      else (False, s\<lparr>camera := False,
                     trace := trace s @ notify_events e ''Camera connection failed'' HIGH\<rparr>))"
  by (simp add: connect_camera_def send_notification_snd)

lemma ensure_camera_frame:
  "store (snd (ensure_camera e s)) = store s"
  "fs (snd (ensure_camera e s)) = fs s"
  "processed_files (snd (ensure_camera e s)) = processed_files s"
  "fst (ensure_camera e s) = camera (snd (ensure_camera e s))"
  "camera s \<Longrightarrow> ensure_camera e s = (True, s)"
  "\<exists>E. trace (snd (ensure_camera e s)) = trace s @ E \<and> (\<forall>n c. SinkUpload n c \<notin> set E)"
  by (simp_all add: ensure_camera_def connect_camera_eq)

lemma get_camera_files_frame:
  "store (snd (get_camera_files e k s)) = store s"
  "fs (snd (get_camera_files e k s)) = fs s"
  "processed_files (snd (get_camera_files e k s)) = processed_files s"
  "fst (get_camera_files e k s) \<noteq> [] \<Longrightarrow> camera (snd (get_camera_files e k s))"
  "\<exists>E. trace (snd (get_camera_files e k s)) = trace s @ E \<and> (\<forall>n c. SinkUpload n c \<notin> set E)"
  using ensure_camera_frame[where e=e and s=s]
  by (auto simp: get_camera_files_def split_beta split: sum.splits camera_error.splits)

lemma download_file_frame:
  "store (snd (download_file e f s)) = store s"
  "processed_files (snd (download_file e f s)) = processed_files s"
  "fst (download_file e f s) = Some p \<Longrightarrow> p = download_path e f"
  "camera s \<Longrightarrow> camera (snd (download_file e f s))"
  "\<exists>E. trace (snd (download_file e f s)) = trace s @ E \<and> (\<forall>n c. SinkUpload n c \<notin> set E)
        \<and> (camera s \<longrightarrow> DeviceGet f \<in> set E)"
  using ensure_camera_frame[where e=e and s=s]
  by (auto simp: download_file_def split_beta Let_def log_event_def split: sum.splits)

lemma download_name_inj:
  assumes "length (stamp e g) = length (stamp e f)"
    and "snd (download_path e g) = snd (download_path e f)"
  shows "g = f"
  using assms by (simp add: download_path_def)

subsection \<open>The discovery loop\<close>

lemma select_success_mem:
  "r \<in> set rows \<Longrightarrow> upload_status r = Success \<Longrightarrow> select_success rows (filename r)"
  by (auto simp: select_success_def list_ex_iff)

text \<open>One turn of the loop of \<open>check_new_images\<close>, for a file whose record is a persisted \<open>success\<close>.\<close>

lemma images_step:
  assumes r: "r \<in> set (store s)" "upload_status r = Success"
    and len: "\<forall>g. length (stamp e g) = length (stamp e (filename r))"
  shows "\<exists>t E. images_loop e (g # rest) s = images_loop e rest t
           \<and> r \<in> set (store t)
           \<and> trace t = trace s @ E
           \<and> (\<forall>c. SinkUpload (snd (download_path e (filename r))) c \<notin> set E)
           \<and> (camera s \<longrightarrow> camera t \<and> DeviceGet g \<in> set E)"
proof -
  define s1 where "s1 = snd (download_file e g s)"
  obtain E1 where E1: "trace s1 = trace s @ E1" "\<forall>n c. SinkUpload n c \<notin> set E1"
    "camera s \<longrightarrow> DeviceGet g \<in> set E1"
    unfolding s1_def using download_file_frame(5)[of e g s] by blast
  have st1: "store s1 = store s" and cam1: "camera s \<longrightarrow> camera s1"
    unfolding s1_def by (simp_all add: download_file_frame)
  show ?thesis
  proof (cases "fst (download_file e g s)")
    case None
    then have "images_loop e (g # rest) s = images_loop e rest s1"
      by (simp add: split_beta s1_def)
    then show ?thesis using r st1 cam1 E1
      by (intro exI[of _ s1] exI[of _ E1]) simp
  next
    case (Some p)
    then have p: "p = download_path e g" by (rule download_file_frame(3))
    define s2 where "s2 = snd (handle_file_processing e g p s1)"
    define t where "t = (if fst (handle_file_processing e g p s1)
                         then s2\<lparr>processed_files := insert g (processed_files s2)\<rparr> else s2)"
    have eq: "images_loop e (g # rest) s = images_loop e rest t"
      using Some by (simp add: split_beta s1_def s2_def t_def)
    have tt: "store t = store s2" "trace t = trace s2" "camera t = camera s2"
      unfolding t_def by simp_all
    have cam2: "camera s2 = camera s1" unfolding s2_def using hfp_general[of e g p s1] by simp
    have "r \<in> set (store s2)
          \<and> (\<exists>E2. trace s2 = trace s1 @ E2
                 \<and> (\<forall>c. SinkUpload (snd (download_path e (filename r))) c \<notin> set E2))"
    proof (cases "g = filename r")
      case True
      have m: "select_success (store s1) g" unfolding True st1 using r by (rule select_success_mem)
      show ?thesis unfolding s2_def using hfp_marked(1,4)[OF m, of e p] r st1 by auto
    next
      case False
      then have ne: "snd p \<noteq> snd (download_path e (filename r))"
        unfolding p using download_name_inj[of e g "filename r"] len by blast
      obtain E2 where E2: "trace s2 = trace s1 @ E2" "\<forall>n c. SinkUpload n c \<in> set E2 \<longrightarrow> n = snd p"
        unfolding s2_def using hfp_general[of e g p s1] by blast
      have "r \<in> set (store s2)"
        unfolding s2_def using hfp_general[of e g p s1] r(1) st1 False by auto
      then show ?thesis using E2 ne by auto
    qed
    then obtain E2 where E2: "r \<in> set (store s2)" "trace s2 = trace s1 @ E2"
      "\<forall>c. SinkUpload (snd (download_path e (filename r))) c \<notin> set E2" by blast
    have "trace t = trace s @ (E1 @ E2)" using tt E1(1) E2(2) by simp
    moreover have "\<forall>c. SinkUpload (snd (download_path e (filename r))) c \<notin> set (E1 @ E2)"
      using E1(2) E2(3) by simp
    moreover have "camera s \<longrightarrow> camera t \<and> DeviceGet g \<in> set (E1 @ E2)"
      using cam1 cam2 tt E1(3) by simp
    moreover have "r \<in> set (store t)" using E2(1) tt(1) by simp
    ultimately show ?thesis using eq
      by (intro exI[of _ t] exI[of _ "E1 @ E2"]) simp
  qed
qed

lemma images_loop_safe:
  assumes "r \<in> set (store s)" "upload_status r = Success"
    and "\<forall>g. length (stamp e g) = length (stamp e (filename r))"
  shows "\<exists>E. r \<in> set (store (images_loop e files s))
           \<and> trace (images_loop e files s) = trace s @ E
           \<and> (\<forall>c. SinkUpload (snd (download_path e (filename r))) c \<notin> set E)
           \<and> (camera s \<and> filename r \<in> set files \<longrightarrow> DeviceGet (filename r) \<in> set E)"
  using assms(1)
proof (induction files arbitrary: s)
  case Nil
  then show ?case by simp
next
  case (Cons g rest)
  obtain t E where t: "images_loop e (g # rest) s = images_loop e rest t"
    "r \<in> set (store t)" "trace t = trace s @ E"
    "\<forall>c. SinkUpload (snd (download_path e (filename r))) c \<notin> set E"
    "camera s \<longrightarrow> camera t \<and> DeviceGet g \<in> set E"
    using images_step[OF Cons.prems assms(2,3), of g rest] by blast
  obtain E' where E': "r \<in> set (store (images_loop e rest t))"
    "trace (images_loop e rest t) = trace t @ E'"
    "\<forall>c. SinkUpload (snd (download_path e (filename r))) c \<notin> set E'"
    "camera t \<and> filename r \<in> set rest \<longrightarrow> DeviceGet (filename r) \<in> set E'"
    using Cons.IH[OF t(2)] by blast
  have "trace (images_loop e (g # rest) s) = trace s @ (E @ E')"
    using t(1,3) E'(2) by simp
  moreover have "\<forall>c. SinkUpload (snd (download_path e (filename r))) c \<notin> set (E @ E')"
    using t(4) E'(3) by simp
  moreover have "camera s \<and> filename r \<in> set (g # rest) \<longrightarrow> DeviceGet (filename r) \<in> set (E @ E')"
    using t(5) E'(4) by auto
  ultimately show ?case using E'(1) t(1)
    by (intro exI[of _ "E @ E'"]) simp
qed

text \<open>
  Claim C3, as the claim states it, fails: \<open>check_new_images\<close> consults only the
  in-memory processed-set before it downloads, and the table is read in
  \<open>handle_file_processing\<close>, after the download. A process just started, whose
  table marks \<open>IMG_01.JPG\<close> as \<open>success\<close>, fetches the file from the camera
  again (and does nothing else).
\<close>

theorem restart_downloads_again:
  "row_of ''IMG_01.JPG'' Success 0 \<in> set (store s_restart)
   \<and> processed_files s_restart = {}
   \<and> new_events s_restart (check_new_images env_ok s_restart) = [DeviceGet ''IMG_01.JPG'']"
  by (simp add: check_new_images_def get_camera_files_def ensure_camera_def connect_camera_def
      connect_retries_def numeral_3_eq_3 download_file_def download_path_def
      handle_file_processing_def calculate_checksum_def select_success_def
      log_event_def new_events_def Let_def s_restart_def s_empty_def row_of_def env_ok_def)

text \<open>
  Claim C3, amended. With a persisted \<open>success\<close> record for F, one pass of
  \<open>check_new_images\<close> in a process just started leaves that record in the table
  and hands no upload of F (under the name of its download) to the sink; but
  when both listings of the pass contain F, it does fetch F from the camera
  again. The time stamps in the download names have one length, as those of
  \<open>strftime('%Y%m%d_%H%M%S')\<close> do.
\<close>

theorem rediscovery_after_restart:
  assumes "r \<in> set (store s)" and "upload_status r = Success"
    and "processed_files s = {}"
    and "\<forall>g. length (stamp e g) = length (stamp e (filename r))"
  shows "r \<in> set (store (check_new_images e s))
       \<and> (\<forall>c. SinkUpload (snd (download_path e (filename r))) c
              \<notin> set (new_events s (check_new_images e s)))
       \<and> (filename r \<in> set (fst (get_camera_files e 0 s))
            \<and> filename r \<in> set (fst (get_camera_files e 1 (snd (get_camera_files e 0 s))))
          \<longrightarrow> DeviceGet (filename r) \<in> set (new_events s (check_new_images e s)))"
proof -
  let ?F = "filename r"
  define l1 where "l1 = fst (get_camera_files e 0 s)"
  define s1 where "s1 = snd (get_camera_files e 0 s)"
  define l2 where "l2 = fst (get_camera_files e 1 s1)"
  define s2 where "s2 = snd (get_camera_files e 1 s1)"
  define infos where "infos = filter (\<lambda>f. f \<in> set l1) l2"
  define s3 where "s3 = images_loop e infos s2"
  obtain E0 where E0: "trace s1 = trace s @ E0" "\<forall>n c. SinkUpload n c \<notin> set E0"
    unfolding s1_def using get_camera_files_frame(5)[of e 0 s] by blast
  have st1: "store s1 = store s" "processed_files s1 = {}"
    unfolding s1_def using assms(3) by (simp_all add: get_camera_files_frame)
  show ?thesis
  proof (cases "set l1 = {}")
    case True
    then have res: "check_new_images e s = s1"
      by (simp add: check_new_images_def split_beta Let_def l1_def[symmetric] s1_def[symmetric] st1)
    have "new_events s s1 = E0" using E0(1) by (rule new_events_eqI)
    then show ?thesis unfolding res using assms(1) st1 E0(2) True l1_def by simp
  next
    case False
    obtain E1 where E1: "trace s2 = trace s1 @ E1" "\<forall>n c. SinkUpload n c \<notin> set E1"
      unfolding s2_def using get_camera_files_frame(5)[of e 1 s1] by blast
    have st2: "r \<in> set (store s2)"
      unfolding s2_def using assms(1) st1 by (simp add: get_camera_files_frame)
    have cam2: "l2 \<noteq> [] \<longrightarrow> camera s2"
      unfolding l2_def s2_def using get_camera_files_frame(4)[of e 1 s1] by blast
    obtain E where E: "r \<in> set (store s3)" "trace s3 = trace s2 @ E"
      "\<forall>c. SinkUpload (snd (download_path e ?F)) c \<notin> set E"
      "camera s2 \<and> ?F \<in> set infos \<longrightarrow> DeviceGet ?F \<in> set E"
      unfolding s3_def using images_loop_safe[OF st2 assms(2,4), of infos] by blast
    have res: "store (check_new_images e s) = store s3 \<and> trace (check_new_images e s) = trace s3"
      using False assms(3)
      by (simp add: check_new_images_def split_beta Let_def l1_def s1_def l2_def s2_def infos_def
          s3_def get_camera_files_frame)
    have "trace (check_new_images e s) = trace s @ (E0 @ E1 @ E)"
      using res E0(1) E1(1) E(2) by simp
    then have ev: "new_events s (check_new_images e s) = E0 @ E1 @ E" by (rule new_events_eqI)
    have dl: "DeviceGet ?F \<in> set E" if "?F \<in> set l1" "?F \<in> set l2"
    proof -
      have "l2 \<noteq> []" using that(2) by auto
      moreover have "?F \<in> set infos" unfolding infos_def using that by simp
      ultimately show ?thesis using cam2 E(4) by simp
    qed
    show ?thesis unfolding ev using res E(1) E0(2) E1(2) E(3) dl
      by (simp add: l1_def l2_def s1_def)
  qed
qed

theorem rediscovery_after_restart_witness:
  "row_of ''IMG_01.JPG'' Success 0 \<in> set (store s_restart)
   \<and> upload_status (row_of ''IMG_01.JPG'' Success 0) = Success
   \<and> processed_files s_restart = {}
   \<and> (\<forall>g. length (stamp env_ok g) = length (stamp env_ok (filename (row_of ''IMG_01.JPG'' Success 0))))
   \<and> ''IMG_01.JPG'' \<in> set (fst (get_camera_files env_ok 0 s_restart))
   \<and> ''IMG_01.JPG'' \<in> set (fst (get_camera_files env_ok 1 (snd (get_camera_files env_ok 0 s_restart))))
   \<and> row_of ''IMG_01.JPG'' Success 0 \<in> set (store (check_new_images env_ok s_restart))
   \<and> (\<forall>c. SinkUpload (snd (download_path env_ok ''IMG_01.JPG'')) c
          \<notin> set (new_events s_restart (check_new_images env_ok s_restart)))
   \<and> DeviceGet ''IMG_01.JPG'' \<in> set (new_events s_restart (check_new_images env_ok s_restart))"
proof -
  let ?r = "row_of ''IMG_01.JPG'' Success 0"
  have h1: "?r \<in> set (store s_restart)" by (simp add: s_restart_def)
  have h2: "upload_status ?r = Success" by (simp add: row_of_def)
  have h3: "processed_files s_restart = {}" by (simp add: s_restart_def s_empty_def)
  have h4: "\<forall>g. length (stamp env_ok g) = length (stamp env_ok (filename ?r))"
    by (simp add: env_ok_def)
  have f: "filename ?r = ''IMG_01.JPG''" by (simp add: row_of_def)
  have l0: "''IMG_01.JPG'' \<in> set (fst (get_camera_files env_ok 0 s_restart))"
    by (simp add: get_camera_files_def ensure_camera_def connect_camera_def connect_retries_def
        numeral_3_eq_3 s_restart_def s_empty_def env_ok_def)
  have l1: "''IMG_01.JPG'' \<in> set (fst (get_camera_files env_ok 1 (snd (get_camera_files env_ok 0 s_restart))))"
    by (simp add: get_camera_files_def ensure_camera_def connect_camera_def connect_retries_def
        numeral_3_eq_3 s_restart_def s_empty_def env_ok_def)
  show ?thesis
    using h1 h2 h3 h4 l0 l1 rediscovery_after_restart[OF h1 h2 h3 h4] unfolding f by blast
qed

end
